theory Spec2Isabelle
  imports Complex_Main "HOL-Library.Char_ord" "HOL-Library.List_Lexorder"
begin

section \<open>The survey explorer of app.py: normaliser, tokenizer, filter, aggregations\<close>

text \<open>
  The program loads a four-column table of strings with pandas, types three of the
  columns, and recomputes a filtered frame and four count frames from the widget values.
  The table is modelled as the list of its rows, a cell of a float column as a number
  or NaN (\<open>None\<close>), a cell of a categorical column as \<open>string option\<close>
  (\<open>None\<close> is NaN), and a frame of counts as a list of (label, count) pairs in row
  order. The filtered frame is a list of rows, or the frame without columns that the
  filter returns in one case. An exception of the source is a value of \<open>py_error\<close>.
  Strings are lists of ASCII characters.
\<close>

subsection \<open>Configuration\<close>

definition INTENT_LEVELS :: "string list" where
  "INTENT_LEVELS =
     [''Definitely going'', ''Probably going'', ''I don't know'',
      ''Probably not going'', ''Definitely not going'']"

definition TENURE_LEVELS :: "string list" where
  "TENURE_LEVELS = [''0 to 5 years'', ''6 to 10 years'', ''11 to 15 years'', ''16 or more years'']"

subsection \<open>Strings: whitespace, strip, str of an integer\<close>

text \<open>
  The characters that Python's \<open>str.isspace\<close> and the regular expression class
  \<open>\s\<close> accept among the ASCII characters: tab, line feed, vertical tab, form feed,
  carriage return, the four separators 0x1C to 0x1F, and the space.
\<close>

definition is_space :: "char \<Rightarrow> bool" where
  "is_space c \<longleftrightarrow>
     c \<in> set [CHR 0x09, CHR 0x0A, CHR 0x0B, CHR 0x0C, CHR 0x0D,
              CHR 0x1C, CHR 0x1D, CHR 0x1E, CHR 0x1F, CHR 0x20]"

text \<open>\<open>str.strip()\<close>: leading and trailing whitespace removed.\<close>

definition strip :: "string \<Rightarrow> string" where
  "strip s = rev (dropWhile is_space (rev (dropWhile is_space s)))"

definition digit_char :: "nat \<Rightarrow> char" where
  "digit_char d = char_of (48 + d)"

fun str_nat :: "nat \<Rightarrow> string" where
  "str_nat n = (if n < 10 then [digit_char n] else str_nat (n div 10) @ [digit_char (n mod 10)])"

declare str_nat.simps [simp del]

text \<open>\<open>str(i)\<close> of a Python int: decimal digits, a minus sign when negative.\<close>

definition str_int :: "int \<Rightarrow> string" where
  "str_int i = (if i < 0 then CHR ''-'' # str_nat (nat (- i)) else str_nat (nat i))"

subsection \<open>Schema normaliser (module level, lines 28 to 41)\<close>

text \<open>
  \<open>pd.read_csv(..., dtype=str).fillna("")\<close> gives every cell as a string, the empty
  string where the file had none.
\<close>

record raw_row =
  raw_Last5Years :: string
  raw_AttendTRBAM2026 :: string
  raw_Organization :: string
  raw_HowLong :: string

text \<open>
  A cell of a float column that is not NaN: a finite number, held as the exact value of
  the literal it was read from, or one of the two infinities. A float is that exact
  value whenever the literal has no more than 15 significant digits; the rounding of
  longer literals is not followed.
\<close>

datatype num = Fin rat | PInf | NInf

datatype py_error = KeyError | TypeError

record row =
  Last5Years :: "num option"
  AttendTRBAM2026 :: "string option"
  Organization :: string
  HowLong :: "string option"

text \<open>
  \<open>pd.to_numeric(col, errors="coerce")\<close> on one cell of strings. pandas reads the
  cell with its own \<open>strtod\<close>: ASCII whitespace, an optional sign, digits, an optional
  point with digits (one digit at least on either side), an optional exponent (e or E,
  an optional sign, one digit at least), ASCII whitespace, and the end of the cell; a
  decimal exponent above 308 is a range error. A cell that is not read so is tried as
  one of the words inf and infinity, in any case and with an optional sign. Every other
  cell is coerced to NaN. No bound is applied to the value read.
\<close>

definition is_digit :: "char \<Rightarrow> bool" where
  "is_digit c \<longleftrightarrow> CHR ''0'' \<le> c \<and> c \<le> CHR ''9''"

definition digit_val :: "char \<Rightarrow> nat" where
  "digit_val c = of_char c - 48"

definition digits_val :: "string \<Rightarrow> nat" where
  "digits_val ds = foldl (\<lambda>acc c. 10 * acc + digit_val c) 0 ds"

definition is_space_c :: "char \<Rightarrow> bool" where
  "is_space_c c \<longleftrightarrow> c = CHR 0x20 \<or> c \<in> set [CHR 0x09, CHR 0x0A, CHR 0x0B, CHR 0x0C, CHR 0x0D]"

text \<open>An optional sign: whether it is a minus, and what follows it.\<close>

definition sign_of :: "string \<Rightarrow> bool \<times> string" where
  "sign_of s =
     (case s of
        [] \<Rightarrow> (False, [])
      | c # cs \<Rightarrow>
          if c = CHR ''-'' then (True, cs) else if c = CHR ''+'' then (False, cs) else (False, s))"

text \<open>An optional point with its digits: the digits, and what follows them.\<close>

definition fraction_part :: "string \<Rightarrow> string \<times> string" where
  "fraction_part s =
     (case s of
        [] \<Rightarrow> ([], [])
      | c # t \<Rightarrow>
          if c = CHR ''.'' then (takeWhile is_digit t, dropWhile is_digit t) else ([], s))"

text \<open>An optional exponent: its value and what follows it; an exponent mark without a
  digit leaves the cell unread.\<close>

definition exponent_part :: "string \<Rightarrow> (int \<times> string) option" where
  "exponent_part s =
     (case s of
        [] \<Rightarrow> Some (0, [])
      | c # t \<Rightarrow>
          if c = CHR ''e'' \<or> c = CHR ''E'' then
            (let (eneg, t2) = sign_of t; ed = takeWhile is_digit t2 in
             if ed = [] then None
             else Some (if eneg then - int (digits_val ed) else int (digits_val ed),
                        dropWhile is_digit t2))
          else Some (0, s))"

text \<open>The value of sign, integer digits, fraction digits and exponent.\<close>

definition dec_value :: "bool \<Rightarrow> string \<Rightarrow> string \<Rightarrow> int \<Rightarrow> rat" where
  "dec_value neg ip fp ex =
     (let m = int (digits_val (ip @ fp));
          e = ex - int (length fp);
          q = (if 0 \<le> e then of_int (m * 10 ^ nat e) else of_int m / of_int (10 ^ nat (- e)))
      in if neg then - q else q)"

definition xstrtod :: "string \<Rightarrow> rat option" where
  "xstrtod s =
     (let (neg, s2) = sign_of (dropWhile is_space_c s);
          ip = takeWhile is_digit s2;
          (fp, s4) = fraction_part (dropWhile is_digit s2)
      in if ip = [] \<and> fp = [] then None
         else
           (case exponent_part s4 of
              None \<Rightarrow> None
            | Some (ex, s5) \<Rightarrow>
                if dropWhile is_space_c s5 \<noteq> [] then None
                else if 308 < ex - int (length fp) then None
                else Some (dec_value neg ip fp ex)))"

definition lower :: "char \<Rightarrow> char" where
  "lower c = (if CHR ''A'' \<le> c \<and> c \<le> CHR ''Z'' then char_of (of_char c + (32 :: nat)) else c)"

definition inf_word :: "string \<Rightarrow> num option" where
  "inf_word s =
     (let w = map lower s in
      if w \<in> set [''inf'', ''+inf'', ''infinity'', ''+infinity''] then Some PInf
      else if w \<in> set [''-inf'', ''-infinity''] then Some NInf
      else None)"

definition to_numeric :: "string \<Rightarrow> num option" where
  "to_numeric s = (case xstrtod s of Some q \<Rightarrow> Some (Fin q) | None \<Rightarrow> inf_word s)"

text \<open>\<open>pd.Categorical(values, categories=cats)\<close> on one cell: a value that is not a
  category becomes NaN.\<close>

definition Categorical :: "string list \<Rightarrow> string \<Rightarrow> string option" where
  "Categorical cats v = (if v \<in> set cats then Some v else None)"

text \<open>\<open>Series.replace\<close> with the dictionary of lines 36 to 41: a cell equal to a key
  is replaced, every other cell is kept.\<close>

definition replace_org :: "string \<Rightarrow> string" where
  "replace_org s =
     (if s = ''Consultant'' then ''Consulting''
      else if s = ''consultant'' then ''Consulting''
      else if s = ''CONSULTANT'' then ''Consulting''
      else if s = ''software'' then ''Software''
      else s)"

definition normalize_row :: "raw_row \<Rightarrow> row" where
  "normalize_row r =
     \<lparr> Last5Years = to_numeric (raw_Last5Years r),
       AttendTRBAM2026 = Categorical INTENT_LEVELS (raw_AttendTRBAM2026 r),
       Organization = replace_org (strip (raw_Organization r)),
       HowLong = Categorical TENURE_LEVELS (raw_HowLong r) \<rparr>"

definition BASE_DF :: "raw_row list \<Rightarrow> row list" where
  "BASE_DF csv = map normalize_row csv"

subsection \<open>Organization tokenizer (split\_orgs, lines 44 to 48)\<close>

text \<open>
  One attempt of the pattern \<open>\s*(,|/|;|\+| and )\s*\<close> at the start of a string,
  as the backtracking matcher runs it. The first \<open>\s*\<close> takes the whole run of
  whitespace; a one-character delimiter can only follow the whole run; the alternative
  \<open>" and "\<close> starts with a space, so it matches only after the matcher has given back
  the last character of the run, which must be a space, with \<open>"and "\<close> next. The
  result is the captured group and what is left after the second \<open>\s*\<close>.
\<close>

definition match_here :: "string \<Rightarrow> (string \<times> string) option" where
  "match_here s =
     (let ws = takeWhile is_space s; r = dropWhile is_space s in
      case r of
        [] \<Rightarrow> None
      | c # r' \<Rightarrow>
          if c \<in> set '',/;+'' then Some ([c], dropWhile is_space r')
          else if ws \<noteq> [] \<and> last ws = CHR '' '' \<and> take 4 r = ''and ''
               then Some ('' and '', dropWhile is_space (drop 4 r))
          else None)"

lemma match_here_shorter: "match_here s = Some (g, rest) \<Longrightarrow> length rest < length s"
proof -
  assume m: "match_here s = Some (g, rest)"
  have l: "length (dropWhile is_space xs) \<le> length xs" for xs
    by (rule length_dropWhile_le)
  obtain c r' where r: "dropWhile is_space s = c # r'"
    using m by (cases "dropWhile is_space s") (auto simp: match_here_def Let_def)
  have d: "length (c # r') \<le> length s"
    using l [of s] r by simp
  have "rest = dropWhile is_space r' \<or> rest = dropWhile is_space (drop 4 (c # r'))"
    using m r by (auto simp: match_here_def Let_def split: if_splits)
  then show ?thesis
  proof
    assume "rest = dropWhile is_space r'"
    then show ?thesis using l [of r'] d by simp
  next
    assume e: "rest = dropWhile is_space (drop 4 (c # r'))"
    have "length rest \<le> length (drop 4 (c # r'))"
      unfolding e by (rule length_dropWhile_le)
    then show ?thesis using d by simp
  qed
qed

text \<open>
  \<open>re.split\<close> with that pattern: the search moves right from the end of the last
  match; each match closes the pending part and is followed by its captured group.
  \<open>acc\<close> is the pending part, reversed.
\<close>

function re_split_aux :: "string \<Rightarrow> string \<Rightarrow> string list" where
  "re_split_aux acc s =
     (case match_here s of
        Some (g, rest) \<Rightarrow> rev acc # g # re_split_aux [] rest
      | None \<Rightarrow> (case s of [] \<Rightarrow> [rev acc] | c # cs \<Rightarrow> re_split_aux (c # acc) cs))"
  by pat_completeness auto
termination
  by (relation "measure (\<lambda>(acc, s). length s)") (auto dest: match_here_shorter)

declare re_split_aux.simps [simp del]

definition re_split :: "string \<Rightarrow> string list" where
  "re_split s = re_split_aux [] s"

definition split_orgs :: "string \<Rightarrow> string list" where
  "split_orgs cell =
     (if cell = [] then []
      else map strip
             (filter (\<lambda>p. p \<noteq> [] \<and> p \<notin> set ['','', ''/'', '';'', ''+'', '' and ''])
                (re_split cell)))"

subsection \<open>Filter evaluator (df\_filtered, lines 112 to 139)\<close>

text \<open>
  The widget values: the slider gives a pair of integers, the two select boxes for
  intent and tenure give the selected labels, and the organization box gives the
  selected tokens or nothing (the source reads it as \<open>input.orgs() or []\<close>).
\<close>

record inputs =
  input_yr :: "int \<times> int"
  input_intent :: "string list"
  input_orgs :: "string list option"
  input_tenure :: "string list"

definition isna :: "'a option \<Rightarrow> bool" where
  "isna v \<longleftrightarrow> v = None"

text \<open>Comparisons of a float column with a number: False on NaN.\<close>

definition ge_num :: "num option \<Rightarrow> int \<Rightarrow> bool" where
  "ge_num v k =
     (case v of
        None \<Rightarrow> False
      | Some (Fin q) \<Rightarrow> of_int k \<le> q
      | Some PInf \<Rightarrow> True
      | Some NInf \<Rightarrow> False)"

definition le_num :: "num option \<Rightarrow> int \<Rightarrow> bool" where
  "le_num v k =
     (case v of
        None \<Rightarrow> False
      | Some (Fin q) \<Rightarrow> q \<le> of_int k
      | Some PInf \<Rightarrow> False
      | Some NInf \<Rightarrow> True)"

text \<open>\<open>astype(str)\<close> of a categorical cell: NaN is rendered as the string nan.\<close>

definition astype_str :: "string option \<Rightarrow> string" where
  "astype_str v = (case v of None \<Rightarrow> ''nan'' | Some s \<Rightarrow> s)"

definition mask_yr :: "int \<Rightarrow> int \<Rightarrow> row \<Rightarrow> bool" where
  "mask_yr yr0 yr1 r \<longleftrightarrow>
     isna (Last5Years r) \<or> (ge_num (Last5Years r) yr0 \<and> le_num (Last5Years r) yr1)"

definition mask_intent :: "string set \<Rightarrow> row \<Rightarrow> bool" where
  "mask_intent intents r \<longleftrightarrow>
     astype_str (AttendTRBAM2026 r) \<in> intents \<or> isna (AttendTRBAM2026 r)"

definition mask_tenure :: "string set \<Rightarrow> row \<Rightarrow> bool" where
  "mask_tenure tens r \<longleftrightarrow> astype_str (HowLong r) \<in> tens \<or> isna (HowLong r)"

definition keep_org :: "string set \<Rightarrow> row \<Rightarrow> bool" where
  "keep_org sel_orgs r =
     (let toks = set (split_orgs (Organization r)) in toks = {} \<or> toks \<inter> sel_orgs \<noteq> {})"

text \<open>\<open>input.orgs() or []\<close>: no value is read as the empty selection.\<close>

definition or_empty :: "string list option \<Rightarrow> string list" where
  "or_empty v = (case v of None \<Rightarrow> [] | Some xs \<Rightarrow> xs)"

text \<open>
  The frame that \<open>df_filtered\<close> returns. The first three steps index the frame with
  a boolean mask, which keeps the columns. The organization step indexes it with
  \<open>pd.Series(keep, index=df.index)\<close>; when the frame has no row at that step, \<open>keep\<close>
  is empty, the series is not a boolean one, pandas reads it as a list of column labels,
  and the result is a frame without columns and without rows.
\<close>

datatype frame = Frame "row list" | No_columns

fun rows_of :: "frame \<Rightarrow> row list" where
  "rows_of (Frame d) = d"
| "rows_of No_columns = []"

definition df_filtered :: "inputs \<Rightarrow> row list \<Rightarrow> frame" where
  "df_filtered input base =
     (let (yr0, yr1) = input_yr input;
          df1 = filter (mask_yr yr0 yr1) base;
          intents = set (input_intent input);
          df2 = (if intents \<noteq> {} then filter (mask_intent intents) df1 else df1);
          tens = set (input_tenure input);
          df3 = (if tens \<noteq> {} then filter (mask_tenure tens) df2 else df2);
          sel_orgs = set (or_empty (input_orgs input));
          df4 = (if sel_orgs \<noteq> {}
                 then (if df3 = [] then No_columns else Frame (filter (keep_org sel_orgs) df3))
                 else Frame df3)
      in df4)"


subsection \<open>Aggregator (lines 148 to 221)\<close>

text \<open>\<open>_label_na\<close>: a missing cell is replaced by the label.\<close>

definition label_na :: "string \<Rightarrow> string option \<Rightarrow> string" where
  "label_na label v = (case v of None \<Rightarrow> label | Some x \<Rightarrow> x)"

text \<open>\<open>groupby(col).size()\<close> on a column of strings: one row for each value that
  occurs, in ascending order of the values, with the number of its rows.\<close>

definition groupby_size :: "string list \<Rightarrow> (string \<times> nat) list" where
  "groupby_size keys = map (\<lambda>k. (k, count_list keys k)) (sort (remdups keys))"

fun index_of :: "'a list \<Rightarrow> 'a \<Rightarrow> nat" where
  "index_of [] x = 0"
| "index_of (y # ys) x = (if x = y then 0 else Suc (index_of ys x))"

text \<open>
  The code of a cell of an ordered categorical: the position of its category, and for
  NaN a code after every category (\<open>sort_values\<close> puts NaN last). The sort is by
  that code and keeps the order of rows with equal codes.
\<close>

definition cat_code :: "string list \<Rightarrow> string option \<Rightarrow> nat" where
  "cat_code order l = (case l of None \<Rightarrow> length order | Some k \<Rightarrow> index_of order k)"

definition sort_values_cat :: "string list \<Rightarrow> (string option \<times> nat) list \<Rightarrow> (string option \<times> nat) list" where
  "sort_values_cat order rows = sort_key (\<lambda>(l, n). cat_code order l) rows"

text \<open>The three lines shared by the pies: group, retype the key column as an ordered
  categorical over \<open>order\<close>, sort by it.\<close>

definition agg_by :: "string list \<Rightarrow> string list \<Rightarrow> (string option \<times> nat) list" where
  "agg_by order keys =
     sort_values_cat order (map (\<lambda>(k, n). (Categorical order k, n)) (groupby_size keys))"

text \<open>
  \<open>pie_from_counts\<close>, up to the frame \<open>d\<close> that is handed to the chart: rows with a
  positive count, the label column as strings. A NaN label that reaches
  \<open>astype(str)\<close> is rendered as the string nan, and the \<open>fillna\<close> that follows finds
  nothing to fill. An empty \<open>d\<close> is the case that the source draws as "no data".
\<close>

definition pie_from_counts :: "(string option \<times> nat) list \<Rightarrow> (string \<times> nat) list" where
  "pie_from_counts df_count =
     map (\<lambda>(l, n). (astype_str l, n)) (filter (\<lambda>(l, n). n > 0) df_count)"

text \<open>The label function of \<open>pie_last5\<close>:
  \<^verbatim>\<open>f"{x} time{'s' if x not in ['1','Unspecified'] else ''}"\<close>.\<close>

definition time_label :: "string \<Rightarrow> string" where
  "time_label x = x @ '' time'' @ (if x \<notin> set [''1'', ''Unspecified''] then ''s'' else [])"

definition last5_order :: "string list" where
  "last5_order = map str_int [0, 1, 2, 3, 4, 5] @ [''Unspecified'']"

text \<open>
  \<open>astype("Int64")\<close> on the float column: NaN becomes the missing integer, a whole
  number within the 64-bit range becomes that integer, and when any cell is fractional,
  infinite or out of that range the cast raises TypeError.
\<close>

definition castable :: "num option \<Rightarrow> bool" where
  "castable v =
     (case v of
        None \<Rightarrow> True
      | Some (Fin q) \<Rightarrow> of_int \<lfloor>q\<rfloor> = q \<and> - (2 ^ 63) \<le> \<lfloor>q\<rfloor> \<and> \<lfloor>q\<rfloor> < 2 ^ 63
      | Some _ \<Rightarrow> False)"

definition cast_cell :: "num option \<Rightarrow> int option" where
  "cast_cell v = (case v of Some (Fin q) \<Rightarrow> Some \<lfloor>q\<rfloor> | _ \<Rightarrow> None)"

definition astype_Int64 :: "num option list \<Rightarrow> py_error + int option list" where
  "astype_Int64 col = (if list_all castable col then Inr (map cast_cell col) else Inl TypeError)"

text \<open>
  \<open>apply\<close> of the label function on the categorical label column. The categories are
  rewritten. What becomes of a NaN cell depends on the pandas at hand: it is left as
  NaN (\<open>na_ignore\<close>), or the label function is called on \<open>nan\<close>, which renders as the
  string nan.
\<close>

definition apply_label :: "bool \<Rightarrow> string option \<Rightarrow> string option" where
  "apply_label na_ignore l =
     (case l of
        Some x \<Rightarrow> Some (time_label x)
      | None \<Rightarrow> if na_ignore then None else Some (time_label ''nan''))"

text \<open>\<open>pie_last5\<close> from line 166 on, given the column cast to \<open>Int64\<close>: a missing
  count is labelled, the numbers are rendered with \<open>str\<close>.\<close>

definition pie_last5_cast :: "bool \<Rightarrow> int option list \<Rightarrow> (string \<times> nat) list" where
  "pie_last5_cast na_ignore col =
     (let keys = map (\<lambda>v. label_na ''Unspecified'' (map_option str_int v)) col;
          agg = agg_by last5_order keys;
          agg' = map (\<lambda>(l, n). (apply_label na_ignore l, n)) agg
      in pie_from_counts agg')"

text \<open>\<open>pie_last5\<close>: reading the column of a frame without columns raises KeyError, and
  the cast of line 165 may raise TypeError.\<close>

definition pie_last5 :: "bool \<Rightarrow> frame \<Rightarrow> py_error + (string \<times> nat) list" where
  "pie_last5 na_ignore F =
     (case F of
        No_columns \<Rightarrow> Inl KeyError
      | Frame d \<Rightarrow>
          (case astype_Int64 (map Last5Years d) of
             Inl e \<Rightarrow> Inl e
           | Inr col \<Rightarrow> Inr (pie_last5_cast na_ignore col)))"

definition pie_intent_rows :: "row list \<Rightarrow> (string \<times> nat) list" where
  "pie_intent_rows d =
     (let keys = map (\<lambda>r. label_na ''Unspecified'' (AttendTRBAM2026 r)) d;
          agg = agg_by (INTENT_LEVELS @ [''Unspecified'']) keys
      in pie_from_counts agg)"

definition pie_intent :: "frame \<Rightarrow> py_error + (string \<times> nat) list" where
  "pie_intent F =
     (case F of No_columns \<Rightarrow> Inl KeyError | Frame d \<Rightarrow> Inr (pie_intent_rows d))"

definition pie_tenure_rows :: "row list \<Rightarrow> (string \<times> nat) list" where
  "pie_tenure_rows d =
     (let keys = map (\<lambda>r. label_na ''Unspecified'' (HowLong r)) d;
          agg = agg_by (TENURE_LEVELS @ [''Unspecified'']) keys
      in pie_from_counts agg)"

definition pie_tenure :: "frame \<Rightarrow> py_error + (string \<times> nat) list" where
  "pie_tenure F =
     (case F of No_columns \<Rightarrow> Inl KeyError | Frame d \<Rightarrow> Inr (pie_tenure_rows d))"

text \<open>
  \<open>Series.value_counts()\<close>: one row for each value, by descending count. Rows with
  equal counts are left here in the order in which the values first occur; pandas does
  not fix that order, and nothing below depends on it.
\<close>

definition value_counts :: "string list \<Rightarrow> (string \<times> nat) list" where
  "value_counts xs =
     sort_key (\<lambda>(k, n). - int n) (map (\<lambda>k. (k, count_list xs k)) (rev (remdups (rev xs))))"

text \<open>The exploded token column of \<open>bar_orgs\<close>: \<open>rows.extend(split_orgs(...))\<close> for
  every row, so a token written twice in one cell is there twice. The loop reads the
  organization of the rows it meets: on a frame without rows it reads nothing.\<close>

definition org_rows :: "row list \<Rightarrow> string list" where
  "org_rows d = concat (map (\<lambda>r. split_orgs (Organization r)) d)"

text \<open>
  \<open>bar_orgs\<close>: the frame \<open>agg\<close>, which is the count series of the organizations,
  and the frame that the bar chart is drawn from, \<open>agg\<close> sorted by ascending count
  (a horizontal bar chart lists its rows from the bottom up).
\<close>

definition bar_orgs :: "frame \<Rightarrow> (string \<times> nat) list" where
  "bar_orgs F =
     (let rows = org_rows (rows_of F) in if rows = [] then [] else value_counts rows)"

definition bar_orgs_plotted :: "frame \<Rightarrow> (string \<times> nat) list" where
  "bar_orgs_plotted F = sort_key snd (bar_orgs F)"

subsection \<open>The tokenizer in the words of the specification\<close>

text \<open>
  Written from section 4.2 of the specification, to be compared with \<open>split_orgs\<close>:
  the cell is cut at every occurrence of a comma, a slash, a semicolon, a plus sign or
  the word \<open>" and "\<close>, read from the left; every fragment is trimmed; empty fragments
  and fragments that are delimiter tokens are dropped; the result is a set.
\<close>

fun spec_split :: "string \<Rightarrow> string \<Rightarrow> string list" where
  "spec_split acc [] = [rev acc]"
| "spec_split acc (c # cs) =
     (if take 5 (c # cs) = '' and '' then rev acc # spec_split [] (drop 4 cs)
      else if c \<in> set '',/;+'' then rev acc # spec_split [] cs
      else spec_split (c # acc) cs)"

definition tokenize_spec :: "string \<Rightarrow> string set" where
  "tokenize_spec cell =
     set (filter (\<lambda>f. f \<noteq> [] \<and> f \<notin> set ['','', ''/'', '';'', ''+'', '' and ''])
            (map strip (spec_split [] cell)))"

subsection \<open>The end-to-end scenario of the specification (section 8)\<close>

abbreviation scenario_R1 :: raw_row where
  "scenario_R1 \<equiv>
     \<lparr> raw_Last5Years = ''2'', raw_AttendTRBAM2026 = ''Definitely going'',
       raw_Organization = ''DOT'', raw_HowLong = ''0 to 5 years'' \<rparr>"

abbreviation scenario_R2 :: raw_row where
  "scenario_R2 \<equiv>
     \<lparr> raw_Last5Years = [], raw_AttendTRBAM2026 = ''Probably going'',
       raw_Organization = ''Consultant, DOT'', raw_HowLong = [] \<rparr>"

abbreviation scenario_R3 :: raw_row where
  "scenario_R3 \<equiv>
     \<lparr> raw_Last5Years = ''5'', raw_AttendTRBAM2026 = [],
       raw_Organization = ''Software'', raw_HowLong = ''16 or more years'' \<rparr>"

abbreviation scenario_input :: inputs where
  "scenario_input \<equiv>
     \<lparr> input_yr = (0, 5), input_intent = INTENT_LEVELS,
       input_orgs = Some [''DOT''], input_tenure = TENURE_LEVELS \<rparr>"

subsection \<open>The four tests of the filter\<close>

text \<open>The test of each field, as \<open>df_filtered\<close> applies it under given widget values:
  an empty selection switches the test of its field off.\<close>

abbreviation pass_yr :: "inputs \<Rightarrow> row \<Rightarrow> bool" where
  "pass_yr input r \<equiv> mask_yr (fst (input_yr input)) (snd (input_yr input)) r"

abbreviation pass_intent :: "inputs \<Rightarrow> row \<Rightarrow> bool" where
  "pass_intent input r \<equiv>
     set (input_intent input) = {} \<or> mask_intent (set (input_intent input)) r"

abbreviation pass_tenure :: "inputs \<Rightarrow> row \<Rightarrow> bool" where
  "pass_tenure input r \<equiv>
     set (input_tenure input) = {} \<or> mask_tenure (set (input_tenure input)) r"

abbreviation pass_orgs :: "inputs \<Rightarrow> row \<Rightarrow> bool" where
  "pass_orgs input r \<equiv>
     set (or_empty (input_orgs input)) = {} \<or> keep_org (set (or_empty (input_orgs input))) r"

subsection \<open>A table of five rows, four of them with a missing value\<close>

abbreviation full_row :: raw_row where
  "full_row \<equiv>
     \<lparr> raw_Last5Years = ''3'', raw_AttendTRBAM2026 = ''Probably going'',
       raw_Organization = ''DOT'', raw_HowLong = ''6 to 10 years'' \<rparr>"

abbreviation narrow_input :: inputs where
  "narrow_input \<equiv>
     \<lparr> input_yr = (3, 3), input_intent = [''Probably going''],
       input_orgs = Some [''DOT''], input_tenure = [''6 to 10 years''] \<rparr>"

abbreviation five_rows :: "raw_row list" where
  "five_rows \<equiv>
     [full_row \<lparr> raw_Last5Years := [] \<rparr>,
      full_row \<lparr> raw_AttendTRBAM2026 := ''Maybe'' \<rparr>,
      full_row \<lparr> raw_HowLong := [] \<rparr>,
      full_row \<lparr> raw_Organization := [] \<rparr>,
      full_row \<lparr> raw_HowLong := ''0 to 5 years'' \<rparr>]"

section \<open>Properties\<close>

subsection \<open>The filter\<close>

lemma df_filtered_cases:
  "df_filtered input base =
     (if set (or_empty (input_orgs input)) \<noteq> {} \<and>
         filter (\<lambda>r. pass_yr input r \<and> pass_intent input r \<and> pass_tenure input r) base = []
      then No_columns
      else Frame (filter (\<lambda>r. pass_yr input r \<and> pass_intent input r \<and> pass_tenure input r \<and>
                               pass_orgs input r) base))"
proof -
  obtain yr0 yr1 where yr: "input_yr input = (yr0, yr1)"
    by (cases "input_yr input")
  let ?df3 = "filter (\<lambda>r. pass_yr input r \<and> pass_intent input r \<and> pass_tenure input r) base"
  have df3: "(if set (input_tenure input) \<noteq> {}
              then filter (mask_tenure (set (input_tenure input)))
                     (if set (input_intent input) \<noteq> {}
                      then filter (mask_intent (set (input_intent input))) (filter (mask_yr yr0 yr1) base)
                      else filter (mask_yr yr0 yr1) base)
              else (if set (input_intent input) \<noteq> {}
                    then filter (mask_intent (set (input_intent input))) (filter (mask_yr yr0 yr1) base)
                    else filter (mask_yr yr0 yr1) base)) = ?df3"
    unfolding yr by (auto intro: filter_cong)
  have last: "filter (keep_org (set (or_empty (input_orgs input)))) ?df3 =
      filter (\<lambda>r. pass_yr input r \<and> pass_intent input r \<and> pass_tenure input r \<and>
                  pass_orgs input r) base"
    if "set (or_empty (input_orgs input)) \<noteq> {}"
    using that by (auto intro: filter_cong)
  have none: "?df3 = filter (\<lambda>r. pass_yr input r \<and> pass_intent input r \<and> pass_tenure input r \<and>
                  pass_orgs input r) base"
    if "set (or_empty (input_orgs input)) = {}"
    using that by (auto intro: filter_cong)
  show ?thesis
    unfolding df_filtered_def Let_def yr prod.case df3
    using last none by simp
qed

lemma filter_conj_empty: "filter P xs = [] \<Longrightarrow> filter (\<lambda>x. P x \<and> Q x) xs = []"
  by (induction xs) (auto split: if_splits)

lemma df_filtered_rows:
  "rows_of (df_filtered input base) =
     filter (\<lambda>r. pass_yr input r \<and> pass_intent input r \<and> pass_tenure input r \<and>
                 pass_orgs input r) base"
proof (cases "set (or_empty (input_orgs input)) \<noteq> {} \<and>
         filter (\<lambda>r. pass_yr input r \<and> pass_intent input r \<and> pass_tenure input r) base = []")
  case True
  then have e: "filter (\<lambda>r. pass_yr input r \<and> pass_intent input r \<and> pass_tenure input r) base = []"
    by blast
  have "filter (\<lambda>r. pass_yr input r \<and> pass_intent input r \<and> pass_tenure input r \<and>
                 pass_orgs input r) base = []"
    using filter_conj_empty [OF e, of "pass_orgs input"] by (simp only: conj_assoc)
  moreover have "df_filtered input base = No_columns"
    using True by (subst df_filtered_cases) simp
  ultimately show ?thesis by simp
next
  case False
  then have "df_filtered input base =
      Frame (filter (\<lambda>r. pass_yr input r \<and> pass_intent input r \<and> pass_tenure input r \<and>
                               pass_orgs input r) base)"
    by (subst df_filtered_cases) simp
  then show ?thesis by simp
qed

lemma df_filtered_iff:
  "r \<in> set (rows_of (df_filtered input base)) \<longleftrightarrow>
     r \<in> set base \<and> pass_yr input r \<and> pass_intent input r \<and> pass_tenure input r \<and>
     pass_orgs input r"
  by (simp add: df_filtered_rows)

lemma df_filtered_subset: "set (rows_of (df_filtered input base)) \<subseteq> set base"
  by (auto simp: df_filtered_iff)

text \<open>
  C1. Take a row of the table whose value in a field is missing: a NaN count, a NaN
  intent, a NaN tenure, or an organization cell without a token. The mask of that field
  holds for it under every selection, and it is in the filtered frame exactly when it
  passes the tests of the other three fields; the selection for the field itself has no
  say. A row missing all four is in the filtered frame under every widget values.
\<close>

theorem missing_value_passes_through:
  assumes "r \<in> set base"
  shows "(Last5Years r = None \<longrightarrow>
            mask_yr yr0 yr1 r \<and>
            (r \<in> set (rows_of (df_filtered input base))) =
              (pass_intent input r \<and> pass_tenure input r \<and> pass_orgs input r)) \<and>
         (AttendTRBAM2026 r = None \<longrightarrow>
            mask_intent intents r \<and>
            (r \<in> set (rows_of (df_filtered input base))) =
              (pass_yr input r \<and> pass_tenure input r \<and> pass_orgs input r)) \<and>
         (HowLong r = None \<longrightarrow>
            mask_tenure tens r \<and>
            (r \<in> set (rows_of (df_filtered input base))) =
              (pass_yr input r \<and> pass_intent input r \<and> pass_orgs input r)) \<and>
         (set (split_orgs (Organization r)) = {} \<longrightarrow>
            keep_org sel_orgs r \<and>
            (r \<in> set (rows_of (df_filtered input base))) =
              (pass_yr input r \<and> pass_intent input r \<and> pass_tenure input r)) \<and>
         (Last5Years r = None \<and> AttendTRBAM2026 r = None \<and> HowLong r = None \<and>
          set (split_orgs (Organization r)) = {} \<longrightarrow>
            r \<in> set (rows_of (df_filtered input base)))"
  using assms
  by (simp add: df_filtered_iff mask_yr_def mask_intent_def mask_tenure_def keep_org_def isna_def)

text \<open>
  C1 on a table of five rows under the range 3 to 3, the intent "Probably going", the
  tenure "6 to 10 years" and the organization DOT. The first four rows each miss one
  field (the count, the intent, the tenure, the organization) and agree with the
  selection in the other three: they are kept. The fifth has the tenure "0 to 5 years":
  it is dropped. The second part is the case that the specification names: the second
  row of the scenario has no tenure and is kept when the tenure selection is exactly
  "0 to 5 years".
\<close>

theorem missing_value_passes_through_witness:
  "normalize_row (full_row \<lparr> raw_Last5Years := [] \<rparr>)
     \<in> set (rows_of (df_filtered narrow_input (BASE_DF five_rows))) \<and>
   normalize_row (full_row \<lparr> raw_AttendTRBAM2026 := ''Maybe'' \<rparr>)
     \<in> set (rows_of (df_filtered narrow_input (BASE_DF five_rows))) \<and>
   normalize_row (full_row \<lparr> raw_HowLong := [] \<rparr>)
     \<in> set (rows_of (df_filtered narrow_input (BASE_DF five_rows))) \<and>
   normalize_row (full_row \<lparr> raw_Organization := [] \<rparr>)
     \<in> set (rows_of (df_filtered narrow_input (BASE_DF five_rows))) \<and>
   normalize_row (full_row \<lparr> raw_HowLong := ''0 to 5 years'' \<rparr>)
     \<notin> set (rows_of (df_filtered narrow_input (BASE_DF five_rows))) \<and>
   normalize_row scenario_R2
     \<in> set (rows_of (df_filtered
            \<lparr> input_yr = (0, 5), input_intent = [], input_orgs = None,
              input_tenure = [''0 to 5 years''] \<rparr>
            (BASE_DF [scenario_R1, scenario_R2, scenario_R3])))"
proof -
  let ?base = "BASE_DF five_rows"
  let ?a = "normalize_row (full_row \<lparr> raw_Last5Years := [] \<rparr>)"
  let ?b = "normalize_row (full_row \<lparr> raw_AttendTRBAM2026 := ''Maybe'' \<rparr>)"
  let ?c = "normalize_row (full_row \<lparr> raw_HowLong := [] \<rparr>)"
  let ?d = "normalize_row (full_row \<lparr> raw_Organization := [] \<rparr>)"
  let ?e = "normalize_row (full_row \<lparr> raw_HowLong := ''0 to 5 years'' \<rparr>)"
  let ?in2 = "\<lparr> input_yr = (0, 5), input_intent = [], input_orgs = None,
                input_tenure = [''0 to 5 years''] \<rparr>"
  let ?base2 = "BASE_DF [scenario_R1, scenario_R2, scenario_R3]"
  have mem: "?a \<in> set ?base" "?b \<in> set ?base" "?c \<in> set ?base" "?d \<in> set ?base"
    by (simp_all add: BASE_DF_def)
  have mem2: "normalize_row scenario_R2 \<in> set ?base2"
    by (simp add: BASE_DF_def)
  have a: "Last5Years ?a = None"
    "pass_intent narrow_input ?a \<and> pass_tenure narrow_input ?a \<and> pass_orgs narrow_input ?a"
    by code_simp+
  have b: "AttendTRBAM2026 ?b = None"
    "pass_yr narrow_input ?b \<and> pass_tenure narrow_input ?b \<and> pass_orgs narrow_input ?b"
    by code_simp+
  have c: "HowLong ?c = None"
    "pass_yr narrow_input ?c \<and> pass_intent narrow_input ?c \<and> pass_orgs narrow_input ?c"
    by code_simp+
  have d: "set (split_orgs (Organization ?d)) = {}"
    "pass_yr narrow_input ?d \<and> pass_intent narrow_input ?d \<and> pass_tenure narrow_input ?d"
    by code_simp+
  have e: "?e \<notin> set (rows_of (df_filtered narrow_input ?base))"
    by code_simp
  have f: "HowLong (normalize_row scenario_R2) = None"
    "pass_yr ?in2 (normalize_row scenario_R2) \<and> pass_intent ?in2 (normalize_row scenario_R2) \<and>
     pass_orgs ?in2 (normalize_row scenario_R2)"
    by code_simp+
  note t = missing_value_passes_through
  have "?a \<in> set (rows_of (df_filtered narrow_input ?base))"
    using t [OF mem(1), of _ _ narrow_input] a by blast
  moreover have "?b \<in> set (rows_of (df_filtered narrow_input ?base))"
    using t [OF mem(2), of _ _ narrow_input] b by blast
  moreover have "?c \<in> set (rows_of (df_filtered narrow_input ?base))"
    using t [OF mem(3), of _ _ narrow_input] c by blast
  moreover have "?d \<in> set (rows_of (df_filtered narrow_input ?base))"
    using t [OF mem(4), of _ _ narrow_input] d by blast
  moreover have "normalize_row scenario_R2 \<in> set (rows_of (df_filtered ?in2 ?base2))"
    using t [OF mem2, of _ _ ?in2] f by blast
  ultimately show ?thesis
    using e by blast
qed

subsection \<open>The scenario\<close>

text \<open>
  C2, as the program runs it. With the range 0 to 5, every intent and every tenure
  selected and the organization DOT, the filtered frame is the first two rows, the
  intent series is Definitely going 1, Probably going 1, and the organization series is
  DOT 2, Consultant 1: the replacement table of the normaliser is applied to whole cells,
  so the cell "Consultant, DOT" keeps its spelling.
\<close>

theorem scenario_result:
  "df_filtered scenario_input (BASE_DF [scenario_R1, scenario_R2, scenario_R3]) =
     Frame (BASE_DF [scenario_R1, scenario_R2]) \<and>
   pie_intent (df_filtered scenario_input (BASE_DF [scenario_R1, scenario_R2, scenario_R3])) =
     Inr [(''Definitely going'', 1), (''Probably going'', 1)] \<and>
   bar_orgs (df_filtered scenario_input (BASE_DF [scenario_R1, scenario_R2, scenario_R3])) =
     [(''DOT'', 2), (''Consultant'', 1)]"
  by code_simp

text \<open>C2, as stated: the organization series of the scenario is not DOT 2, Consulting 1.\<close>

theorem scenario_orgs_counterexample:
  "bar_orgs (df_filtered scenario_input (BASE_DF [scenario_R1, scenario_R2, scenario_R3])) \<noteq>
     [(''DOT'', 2), (''Consulting'', 1)]"
  by code_simp

subsection \<open>The tokenizer\<close>

lemma split_orgs_examples:
  "set (split_orgs ''A, B and C'') = {''A'', ''B'', ''C''}"
  "set (split_orgs ''A/B+C'') = {''A'', ''B'', ''C''}"
  "set (split_orgs ''A;B and C'') = {''A'', ''B'', ''C''}"
  by code_simp+

text \<open>
  C5, at a cell where the program and the specification part. In "A, and B" the
  whitespace after the comma belongs to the match of the comma, so the search goes on at
  "and B", where the word \<open>" and "\<close> has lost its leading space: the program returns
  the tokens A and "and B". Cutting at every occurrence of a delimiter gives A and B.
\<close>

theorem split_orgs_and_after_comma:
  "split_orgs ''A, and B'' = [''A'', ''and B''] \<and>
   tokenize_spec ''A, and B'' = {''A'', ''B''} \<and>
   set (split_orgs ''A, and B'') \<noteq> tokenize_spec ''A, and B''"
  by code_simp

subsection \<open>The label of the missing attendance count\<close>

text \<open>
  C3, at a table of one row without an attendance count. The comment of the source says
  that the suffix is added to every label "except Unspecified"; the label function adds
  " time" to it all the same, so the series of \<open>pie_last5\<close> carries the label
  "Unspecified time", which is neither a formatted count nor the string "Unspecified".
\<close>

theorem pie_last5_unspecified_label:
  "pie_last5 na_ignore
     (df_filtered
        \<lparr> input_yr = (0, 5), input_intent = INTENT_LEVELS, input_orgs = None,
          input_tenure = TENURE_LEVELS \<rparr>
        (BASE_DF [scenario_R2])) = Inr [(''Unspecified time'', 1)] \<and>
   ''Unspecified time'' \<noteq> ''Unspecified'' \<and>
   ''Unspecified time'' \<notin> set (map (time_label \<circ> str_int) [0, 1, 2, 3, 4, 5])"
proof -
  have "pie_last5 True
     (df_filtered
        \<lparr> input_yr = (0, 5), input_intent = INTENT_LEVELS, input_orgs = None,
          input_tenure = TENURE_LEVELS \<rparr>
        (BASE_DF [scenario_R2])) = Inr [(''Unspecified time'', 1)]"
    and "pie_last5 False
     (df_filtered
        \<lparr> input_yr = (0, 5), input_intent = INTENT_LEVELS, input_orgs = None,
          input_tenure = TENURE_LEVELS \<rparr>
        (BASE_DF [scenario_R2])) = Inr [(''Unspecified time'', 1)]"
    by code_simp+
  then have "pie_last5 na_ignore
     (df_filtered
        \<lparr> input_yr = (0, 5), input_intent = INTENT_LEVELS, input_orgs = None,
          input_tenure = TENURE_LEVELS \<rparr>
        (BASE_DF [scenario_R2])) = Inr [(''Unspecified time'', 1)]"
    by (cases na_ignore) simp_all
  moreover have "''Unspecified time'' \<noteq> ''Unspecified'' \<and>
      ''Unspecified time'' \<notin> set (map (time_label \<circ> str_int) [0, 1, 2, 3, 4, 5])"
    by code_simp
  ultimately show ?thesis by blast
qed

subsection \<open>Counts of the three pies\<close>

lemma sum_list_insort_key:
  "sum_list (map g (insort_key f x xs)) = g x + sum_list (map g xs)"
  for g :: "'a \<Rightarrow> nat"
  by (induction xs) simp_all

lemma sum_list_sort_key:
  "sum_list (map g (sort_key f xs)) = sum_list (map g xs)"
  for g :: "'a \<Rightarrow> nat"
  by (induction xs) (simp_all add: sum_list_insort_key)










lemma df_filtered_loses_columns:
  assumes "set (or_empty (input_orgs input)) \<noteq> {}"
    and "\<forall>r\<in>set base. \<not> (pass_yr input r \<and> pass_intent input r \<and> pass_tenure input r)"
  shows "df_filtered input base = No_columns"
proof -
  have "filter (\<lambda>r. pass_yr input r \<and> pass_intent input r \<and> pass_tenure input r) base = []"
    using assms(2) by (auto simp: filter_empty_conv)
  then show ?thesis
    using assms(1) by (subst df_filtered_cases) simp
qed

lemma pies_on_frame_without_columns:
  "pie_last5 na_ignore No_columns = Inl KeyError"
  "pie_intent No_columns = Inl KeyError"
  "pie_tenure No_columns = Inl KeyError"
  "bar_orgs No_columns = []"
  by (simp_all add: pie_last5_def pie_intent_def pie_tenure_def bar_orgs_def org_rows_def)

text \<open>The slip of line 137 at work: the organization DOT is selected and the one row
  of the table fails the intent selection, so the frame comes back without columns, the
  header counts no response and the three pies raise KeyError.\<close>

lemma pies_raise_on_empty_selection:
  "df_filtered
     \<lparr> input_yr = (0, 5), input_intent = [''Probably going''], input_orgs = Some [''DOT''],
       input_tenure = [] \<rparr>
     (BASE_DF [scenario_R1]) = No_columns"
  "pie_intent (df_filtered
     \<lparr> input_yr = (0, 5), input_intent = [''Probably going''], input_orgs = Some [''DOT''],
       input_tenure = [] \<rparr>
     (BASE_DF [scenario_R1])) = Inl KeyError"
  by code_simp+




subsection \<open>The sorted count frame in closed form\<close>

lemma index_of_less: "x \<in> set xs \<Longrightarrow> index_of xs x < length xs"
  by (induction xs) auto

lemma index_of_inj: "inj_on (index_of xs) (set xs)"
proof (rule inj_onI)
  fix x y
  assume "x \<in> set xs" "y \<in> set xs" "index_of xs x = index_of xs y"
  then show "x = y"
    by (induction xs) (auto split: if_splits)
qed

lemma sorted_zero_Suc: "sorted L \<Longrightarrow> sorted (0 # map Suc L)"
  for L :: "nat list"
  by (simp add: sorted_map)

lemma index_of_sorted: "distinct xs \<Longrightarrow> sorted (map (index_of xs) xs)"
proof (induction xs)
  case Nil
  then show ?case by simp
next
  case (Cons y ys)
  have eq: "map (index_of (y # ys)) (y # ys) = 0 # map Suc (map (index_of ys) ys)"
    using Cons.prems by auto
  have "sorted (map (index_of ys) ys)"
    using Cons by simp
  then show ?case
    unfolding eq by (rule sorted_zero_Suc)
qed

lemma count_list_pos: "x \<in> set xs \<Longrightarrow> 0 < count_list xs x"
  using count_list_0_iff [of xs x] by auto

lemma sort_key_unique:
  assumes "distinct xs" and "inj_on f (set xs)"
    and "sorted (map f ys)" and "distinct ys" and "set ys = set xs"
  shows "sort_key f xs = ys"
proof -
  have inj: "inj_on f (set (sort_key f xs) \<union> set ys)"
    using assms by simp
  have "map f (sort_key f xs) = map f ys"
  proof (rule sorted_distinct_set_unique)
    show "sorted (map f (sort_key f xs))" by simp
    show "distinct (map f (sort_key f xs))"
      using assms by (simp add: distinct_map)
    show "sorted (map f ys)" by fact
    show "distinct (map f ys)"
      using assms by (simp add: distinct_map)
    show "set (map f (sort_key f xs)) = set (map f ys)"
      using assms by simp
  qed
  then show ?thesis
    using inj by (simp add: inj_on_map_eq_map)
qed

text \<open>The closed form of the sorted count frame when every key is a category.\<close>

lemma agg_by_closed:
  assumes sub: "set keys \<subseteq> set order" and dist: "distinct order"
  shows "agg_by order keys =
           map (\<lambda>c. (Some c, count_list keys c)) (filter (\<lambda>c. c \<in> set keys) order)"
proof -
  let ?row = "\<lambda>c. (Some c, count_list keys c)"
  let ?f = "\<lambda>(l, n :: nat). cat_code order l"
  have rows: "map (\<lambda>(k, n). (Categorical order k, n)) (groupby_size keys) =
                map ?row (sort (remdups keys))"
    using sub by (auto simp: groupby_size_def Categorical_def)
  have inj_row: "inj_on ?row A" for A
    by (rule inj_onI) simp
  have code: "?f (?row c) = index_of order c" for c
    by (simp add: cat_code_def)
  have "sort_key ?f (map ?row (sort (remdups keys))) =
          map ?row (filter (\<lambda>c. c \<in> set keys) order)"
  proof (rule sort_key_unique)
    show "distinct (map ?row (sort (remdups keys)))"
      by (simp add: distinct_map inj_row)
    show "inj_on ?f (set (map ?row (sort (remdups keys))))"
    proof (rule inj_onI)
      fix p q
      assume p: "p \<in> set (map ?row (sort (remdups keys)))"
        and q: "q \<in> set (map ?row (sort (remdups keys)))"
        and e: "?f p = ?f q"
      from p obtain a where a: "p = ?row a" "a \<in> set keys" by auto
      from q obtain b where b: "q = ?row b" "b \<in> set keys" by auto
      have "index_of order a = index_of order b"
        using e a b by (simp add: cat_code_def)
      then have "a = b"
        using a b sub index_of_inj [of order] by (auto dest: inj_onD)
      then show "p = q" using a b by simp
    qed
    have "map ?f (map ?row (filter (\<lambda>c. c \<in> set keys) order)) =
            map (index_of order) (filter (\<lambda>c. c \<in> set keys) order)"
      by (simp add: cat_code_def comp_def)
    then show "sorted (map ?f (map ?row (filter (\<lambda>c. c \<in> set keys) order)))"
      using sorted_filter [OF index_of_sorted [OF dist], of "\<lambda>c. c \<in> set keys"]
      by (simp add: comp_def cat_code_def)
    show "distinct (map ?row (filter (\<lambda>c. c \<in> set keys) order))"
      using dist by (simp add: distinct_map inj_row)
    show "set (map ?row (filter (\<lambda>c. c \<in> set keys) order)) =
            set (map ?row (sort (remdups keys)))"
      using sub by auto
  qed
  then show ?thesis
    by (simp add: agg_by_def sort_values_cat_def rows)
qed

lemma pie_from_counts_closed:
  "pie_from_counts (map (\<lambda>c. (Some (h c), count_list keys c)) (filter (\<lambda>c. c \<in> set keys) order)) =
     map (\<lambda>c. (h c, count_list keys c)) (filter (\<lambda>c. c \<in> set keys) order)"
proof -
  have "filter (\<lambda>(l, n). n > 0)
          (map (\<lambda>c. (Some (h c), count_list keys c)) (filter (\<lambda>c. c \<in> set keys) order)) =
        map (\<lambda>c. (Some (h c), count_list keys c)) (filter (\<lambda>c. c \<in> set keys) order)"
    by (rule filter_True) (auto simp: count_list_pos)
  then show ?thesis
    by (simp add: pie_from_counts_def astype_str_def comp_def)
qed

subsection \<open>The three pies in closed form\<close>

lemma intent_order_distinct: "distinct (INTENT_LEVELS @ [''Unspecified''])"
  by code_simp

lemma tenure_order_distinct: "distinct (TENURE_LEVELS @ [''Unspecified''])"
  by code_simp

lemma last5_labels_distinct: "distinct (map time_label last5_order)"
  by code_simp

lemma last5_order_distinct: "distinct last5_order"
  by code_simp

lemma BASE_DF_intent:
  "r \<in> set (BASE_DF csv) \<Longrightarrow>
     label_na ''Unspecified'' (AttendTRBAM2026 r) \<in> set (INTENT_LEVELS @ [''Unspecified''])"
  by (auto simp: BASE_DF_def normalize_row_def Categorical_def label_na_def)

lemma BASE_DF_tenure:
  "r \<in> set (BASE_DF csv) \<Longrightarrow>
     label_na ''Unspecified'' (HowLong r) \<in> set (TENURE_LEVELS @ [''Unspecified''])"
  by (auto simp: BASE_DF_def normalize_row_def Categorical_def label_na_def)

lemma pie_intent_rows_closed:
  assumes "set d \<subseteq> set (BASE_DF csv)"
  shows "pie_intent_rows d =
     map (\<lambda>c. (c, count_list (map (\<lambda>r. label_na ''Unspecified'' (AttendTRBAM2026 r)) d) c))
       (filter (\<lambda>c. c \<in> set (map (\<lambda>r. label_na ''Unspecified'' (AttendTRBAM2026 r)) d))
          (INTENT_LEVELS @ [''Unspecified'']))"
proof -
  have "set (map (\<lambda>r. label_na ''Unspecified'' (AttendTRBAM2026 r)) d)
          \<subseteq> set (INTENT_LEVELS @ [''Unspecified''])"
    using assms BASE_DF_intent by auto
  then show ?thesis
    unfolding pie_intent_rows_def Let_def
    by (simp only: agg_by_closed [OF _ intent_order_distinct]
          pie_from_counts_closed [where h = "\<lambda>c. c"])
qed

lemma pie_tenure_rows_closed:
  assumes "set d \<subseteq> set (BASE_DF csv)"
  shows "pie_tenure_rows d =
     map (\<lambda>c. (c, count_list (map (\<lambda>r. label_na ''Unspecified'' (HowLong r)) d) c))
       (filter (\<lambda>c. c \<in> set (map (\<lambda>r. label_na ''Unspecified'' (HowLong r)) d))
          (TENURE_LEVELS @ [''Unspecified'']))"
proof -
  have "set (map (\<lambda>r. label_na ''Unspecified'' (HowLong r)) d)
          \<subseteq> set (TENURE_LEVELS @ [''Unspecified''])"
    using assms BASE_DF_tenure by auto
  then show ?thesis
    unfolding pie_tenure_rows_def Let_def
    by (simp only: agg_by_closed [OF _ tenure_order_distinct]
          pie_from_counts_closed [where h = "\<lambda>c. c"])
qed

lemma str_int_in_order:
  assumes "0 \<le> i" and "i \<le> 5"
  shows "str_int i \<in> set last5_order"
proof -
  have "i = 0 \<or> i = 1 \<or> i = 2 \<or> i = 3 \<or> i = 4 \<or> i = 5"
    using assms by arith
  moreover have "str_int 0 \<in> set last5_order" "str_int 1 \<in> set last5_order"
    "str_int 2 \<in> set last5_order" "str_int 3 \<in> set last5_order"
    "str_int 4 \<in> set last5_order" "str_int 5 \<in> set last5_order"
    by code_simp+
  ultimately show ?thesis by blast
qed

lemma pie_last5_cast_closed:
  assumes "\<forall>v\<in>set col. \<forall>i. v = Some i \<longrightarrow> 0 \<le> i \<and> i \<le> 5"
  shows "pie_last5_cast na_ignore col =
     map (\<lambda>c. (time_label c,
                count_list (map (\<lambda>v. label_na ''Unspecified'' (map_option str_int v)) col) c))
       (filter (\<lambda>c. c \<in> set (map (\<lambda>v. label_na ''Unspecified'' (map_option str_int v)) col))
          last5_order)"
proof -
  let ?keys = "map (\<lambda>v. label_na ''Unspecified'' (map_option str_int v)) col"
  have u: "''Unspecified'' \<in> set last5_order"
    by code_simp
  have "label_na ''Unspecified'' (map_option str_int v) \<in> set last5_order"
    if "v \<in> set col" for v
  proof (cases v)
    case None
    then show ?thesis using u by (simp add: label_na_def)
  next
    case (Some i)
    then show ?thesis
      using assms that str_int_in_order [of i] by (simp add: label_na_def)
  qed
  then have sub: "set ?keys \<subseteq> set last5_order"
    by auto
  have "map (\<lambda>(l, n). (apply_label na_ignore l, n))
          (map (\<lambda>c. (Some c, count_list ?keys c)) (filter (\<lambda>c. c \<in> set ?keys) last5_order)) =
        map (\<lambda>c. (Some (time_label c), count_list ?keys c))
          (filter (\<lambda>c. c \<in> set ?keys) last5_order)"
    by (simp add: apply_label_def)
  then show ?thesis
    unfolding pie_last5_cast_def Let_def
    by (simp only: agg_by_closed [OF sub last5_order_distinct]
          pie_from_counts_closed [where h = time_label])
qed

lemma labels_of_closed:
  "map fst (map (\<lambda>c. (h c, g c)) (filter P order)) = map h (filter P order)"
  by simp

lemma pie_intent_rows_labels:
  assumes "set d \<subseteq> set (BASE_DF csv)"
  shows "map fst (pie_intent_rows d) =
     filter (\<lambda>c. c \<in> set (map (\<lambda>r. label_na ''Unspecified'' (AttendTRBAM2026 r)) d))
       (INTENT_LEVELS @ [''Unspecified''])"
  by (simp only: pie_intent_rows_closed [OF assms] labels_of_closed list.map_ident)

lemma pie_tenure_rows_labels:
  assumes "set d \<subseteq> set (BASE_DF csv)"
  shows "map fst (pie_tenure_rows d) =
     filter (\<lambda>c. c \<in> set (map (\<lambda>r. label_na ''Unspecified'' (HowLong r)) d))
       (TENURE_LEVELS @ [''Unspecified''])"
  by (simp only: pie_tenure_rows_closed [OF assms] labels_of_closed list.map_ident)

lemma pie_last5_cast_labels:
  assumes "\<forall>v\<in>set col. \<forall>i. v = Some i \<longrightarrow> 0 \<le> i \<and> i \<le> 5"
  shows "map fst (pie_last5_cast na_ignore col) =
     map time_label
       (filter (\<lambda>c. c \<in> set (map (\<lambda>v. label_na ''Unspecified'' (map_option str_int v)) col))
          last5_order)"
  by (simp only: pie_last5_cast_closed [OF assms] labels_of_closed)

subsection \<open>The organization series\<close>

lemma value_counts_set:
  "set (value_counts xs) = (\<lambda>k. (k, count_list xs k)) ` set xs"
  by (simp add: value_counts_def)

lemma value_counts_labels_distinct: "distinct (map fst (value_counts xs))"
proof -
  have "distinct (map (\<lambda>k. (k, count_list xs k)) (rev (remdups (rev xs))))"
    by (simp add: distinct_map inj_on_def)
  then have "distinct (value_counts xs)"
    by (simp add: value_counts_def)
  moreover have "inj_on fst (set (value_counts xs))"
    by (auto simp: value_counts_set inj_on_def)
  ultimately show ?thesis
    by (simp add: distinct_map)
qed

lemma value_counts_labels: "set (map fst (value_counts xs)) = set xs"
  by (auto simp: value_counts_set image_iff)

lemma value_counts_counts:
  "map snd (value_counts xs) = map (count_list xs) (map fst (value_counts xs))"
  by (auto simp: value_counts_set)

lemma value_counts_descending: "sorted_wrt (\<lambda>m n. n \<le> m) (map snd (value_counts xs))"
proof -
  have "sorted (map (\<lambda>(k, n). - int n) (value_counts xs))"
    unfolding value_counts_def by (rule sorted_sort_key)
  then show ?thesis
    by (simp add: sorted_wrt_map case_prod_beta)
qed

lemma value_counts_sum: "sum_list (map snd (value_counts xs)) = length xs"
proof -
  have "sum_list (map snd (value_counts xs)) =
          sum_list (map (count_list xs) (rev (remdups (rev xs))))"
    by (simp add: value_counts_def sum_list_sort_key comp_def)
  also have "\<dots> = sum (count_list xs) (set (rev (remdups (rev xs))))"
    by (rule sum_list_distinct_conv_sum_set) simp
  also have "\<dots> = length xs"
    using sum_count_set [of xs "set xs"] by simp
  finally show ?thesis .
qed

lemma bar_orgs_eq: "bar_orgs F = value_counts (org_rows (rows_of F))"
  by (simp add: bar_orgs_def Let_def value_counts_def)

lemma bar_orgs_plotted_ascending:
  "sorted (map snd (bar_orgs_plotted F)) \<and> set (bar_orgs_plotted F) = set (bar_orgs F)"
  by (simp add: bar_orgs_plotted_def)

text \<open>
  C7, as the program runs it. The organization series of a filtered frame has one entry
  for each token of the token lists of the filtered rows, put end to end; the count of a
  token is the number of its occurrences in that list, so a token written twice in one
  cell counts twice; the entries are in descending order of count; and the counts add
  up to the number of tokens, so that a row without a token adds nothing and no bucket
  stands for it.
\<close>

theorem bar_orgs_series:
  "distinct (map fst (bar_orgs (df_filtered input base))) \<and>
   set (map fst (bar_orgs (df_filtered input base))) =
     set (concat (map (\<lambda>r. split_orgs (Organization r)) (rows_of (df_filtered input base)))) \<and>
   map snd (bar_orgs (df_filtered input base)) =
     map (count_list
            (concat (map (\<lambda>r. split_orgs (Organization r)) (rows_of (df_filtered input base)))))
       (map fst (bar_orgs (df_filtered input base))) \<and>
   sorted_wrt (\<lambda>m n. n \<le> m) (map snd (bar_orgs (df_filtered input base))) \<and>
   sum_list (map snd (bar_orgs (df_filtered input base))) =
     length (concat (map (\<lambda>r. split_orgs (Organization r)) (rows_of (df_filtered input base))))"
  unfolding bar_orgs_eq
  using value_counts_labels_distinct [of "org_rows (rows_of (df_filtered input base))"]
    value_counts_labels [of "org_rows (rows_of (df_filtered input base))"]
    value_counts_counts [of "org_rows (rows_of (df_filtered input base))"]
    value_counts_descending [of "org_rows (rows_of (df_filtered input base))"]
    value_counts_sum [of "org_rows (rows_of (df_filtered input base))"]
  unfolding org_rows_def by blast

text \<open>
  C7, as stated: one row whose organization cell is "DOT, DOT" has the token set
  \<open>{DOT}\<close>, in which DOT occurs once; the series counts it twice.
\<close>

theorem bar_orgs_token_sets_counterexample:
  "map (set \<circ> split_orgs \<circ> Organization)
     (rows_of (df_filtered
        \<lparr> input_yr = (0, 5), input_intent = INTENT_LEVELS, input_orgs = None,
          input_tenure = TENURE_LEVELS \<rparr>
        (BASE_DF [\<lparr> raw_Last5Years = ''2'', raw_AttendTRBAM2026 = ''Definitely going'',
                    raw_Organization = ''DOT, DOT'', raw_HowLong = ''0 to 5 years'' \<rparr>]))) =
     [{''DOT''}] \<and>
   bar_orgs
     (df_filtered
        \<lparr> input_yr = (0, 5), input_intent = INTENT_LEVELS, input_orgs = None,
          input_tenure = TENURE_LEVELS \<rparr>
        (BASE_DF [\<lparr> raw_Last5Years = ''2'', raw_AttendTRBAM2026 = ''Definitely going'',
                    raw_Organization = ''DOT, DOT'', raw_HowLong = ''0 to 5 years'' \<rparr>])) =
     [(''DOT'', 2)]"
  by code_simp

subsection \<open>Values outside the fixed domains\<close>

lemma count_list_map_filter:
  "count_list (map f xs) k = length (filter (\<lambda>x. f x = k) xs)"
  by (induction xs) auto

lemma unspecified_not_level:
  "''Unspecified'' \<notin> set INTENT_LEVELS" "''Unspecified'' \<notin> set TENURE_LEVELS"
  by code_simp+

lemma BASE_DF_levels:
  assumes "r \<in> set (BASE_DF csv)" and "AttendTRBAM2026 r = Some v"
  shows "v \<in> set INTENT_LEVELS"
proof -
  obtain x where "r = normalize_row x"
    using assms(1) by (auto simp: BASE_DF_def)
  then show ?thesis
    using assms(2) by (simp add: normalize_row_def Categorical_def split: if_splits)
qed

lemma BASE_DF_tenure_levels:
  assumes "r \<in> set (BASE_DF csv)" and "HowLong r = Some v"
  shows "v \<in> set TENURE_LEVELS"
proof -
  obtain x where "r = normalize_row x"
    using assms(1) by (auto simp: BASE_DF_def)
  then show ?thesis
    using assms(2) by (simp add: normalize_row_def Categorical_def split: if_splits)
qed

lemma pie_intent_rows_unspecified:
  assumes sub: "set d \<subseteq> set (BASE_DF csv)" and r: "r \<in> set d" "AttendTRBAM2026 r = None"
  shows "last (pie_intent_rows d) =
           (''Unspecified'', length (filter (\<lambda>r. AttendTRBAM2026 r = None) d))"
proof -
  let ?key = "\<lambda>r. label_na ''Unspecified'' (AttendTRBAM2026 r)"
  have key: "?key x = ''Unspecified'' \<longleftrightarrow> AttendTRBAM2026 x = None" if "x \<in> set d" for x
  proof (cases "AttendTRBAM2026 x")
    case None
    then show ?thesis by (simp add: label_na_def)
  next
    case (Some v)
    then have "v \<in> set INTENT_LEVELS"
      using that sub BASE_DF_levels [of x csv v] by blast
    then have "v \<noteq> ''Unspecified''"
      using unspecified_not_level(1) by blast
    then show ?thesis using Some by (simp add: label_na_def)
  qed
  have "filter (\<lambda>x. ?key x = ''Unspecified'') d = filter (\<lambda>x. AttendTRBAM2026 x = None) d"
    by (rule filter_cong) (simp_all add: key)
  then have n: "count_list (map ?key d) ''Unspecified'' =
                  length (filter (\<lambda>r. AttendTRBAM2026 r = None) d)"
    by (simp add: count_list_map_filter)
  have "''Unspecified'' \<in> set (map ?key d)"
    using r by (force simp: label_na_def)
  then show ?thesis
    by (simp add: pie_intent_rows_closed [OF sub] n)
qed

lemma pie_tenure_rows_unspecified:
  assumes sub: "set d \<subseteq> set (BASE_DF csv)" and r: "r \<in> set d" "HowLong r = None"
  shows "last (pie_tenure_rows d) =
           (''Unspecified'', length (filter (\<lambda>r. HowLong r = None) d))"
proof -
  let ?key = "\<lambda>r. label_na ''Unspecified'' (HowLong r)"
  have key: "?key x = ''Unspecified'' \<longleftrightarrow> HowLong x = None" if "x \<in> set d" for x
  proof (cases "HowLong x")
    case None
    then show ?thesis by (simp add: label_na_def)
  next
    case (Some v)
    then have "v \<in> set TENURE_LEVELS"
      using that sub BASE_DF_tenure_levels [of x csv v] by blast
    then have "v \<noteq> ''Unspecified''"
      using unspecified_not_level(2) by blast
    then show ?thesis using Some by (simp add: label_na_def)
  qed
  have "filter (\<lambda>x. ?key x = ''Unspecified'') d = filter (\<lambda>x. HowLong x = None) d"
    by (rule filter_cong) (simp_all add: key)
  then have n: "count_list (map ?key d) ''Unspecified'' =
                  length (filter (\<lambda>r. HowLong r = None) d)"
    by (simp add: count_list_map_filter)
  have "''Unspecified'' \<in> set (map ?key d)"
    using r by (force simp: label_na_def)
  then show ?thesis
    by (simp add: pie_tenure_rows_closed [OF sub] n)
qed

text \<open>
  C9. A raw intent that is not one of INTENT\_LEVELS is NaN after the normaliser; the
  intent mask of the filter holds for its row whatever is selected; and when the row is
  in the filtered frame, the intent pie returns a series that ends with the entry
  Unspecified, whose count is the number of filtered rows without an intent. The same
  holds of the tenure and TENURE\_LEVELS.
\<close>

theorem out_of_domain_is_missing:
  "(raw_AttendTRBAM2026 raw \<notin> set INTENT_LEVELS \<longrightarrow>
      AttendTRBAM2026 (normalize_row raw) = None \<and>
      mask_intent sel (normalize_row raw) \<and>
      (raw \<in> set csv \<and> normalize_row raw \<in> set (rows_of (df_filtered input (BASE_DF csv))) \<longrightarrow>
         (\<exists>s. pie_intent (df_filtered input (BASE_DF csv)) = Inr s \<and>
              last s =
                (''Unspecified'',
                 length (filter (\<lambda>r. AttendTRBAM2026 r = None)
                           (rows_of (df_filtered input (BASE_DF csv)))))))) \<and>
   (raw_HowLong raw \<notin> set TENURE_LEVELS \<longrightarrow>
      HowLong (normalize_row raw) = None \<and>
      mask_tenure sel (normalize_row raw) \<and>
      (raw \<in> set csv \<and> normalize_row raw \<in> set (rows_of (df_filtered input (BASE_DF csv))) \<longrightarrow>
         (\<exists>s. pie_tenure (df_filtered input (BASE_DF csv)) = Inr s \<and>
              last s =
                (''Unspecified'',
                 length (filter (\<lambda>r. HowLong r = None)
                           (rows_of (df_filtered input (BASE_DF csv))))))))"
proof -
  let ?F = "df_filtered input (BASE_DF csv)"
  have sub: "set (rows_of ?F) \<subseteq> set (BASE_DF csv)"
    by (rule df_filtered_subset)
  have i: "AttendTRBAM2026 (normalize_row raw) = None"
    if "raw_AttendTRBAM2026 raw \<notin> set INTENT_LEVELS"
    using that by (simp add: normalize_row_def Categorical_def)
  have t: "HowLong (normalize_row raw) = None"
    if "raw_HowLong raw \<notin> set TENURE_LEVELS"
    using that by (simp add: normalize_row_def Categorical_def)
  have F: "?F = Frame (rows_of ?F)" if "normalize_row raw \<in> set (rows_of ?F)"
    using that by (cases ?F) auto
  have pi: "\<exists>s. pie_intent ?F = Inr s \<and>
      last s = (''Unspecified'', length (filter (\<lambda>r. AttendTRBAM2026 r = None) (rows_of ?F)))"
    if "normalize_row raw \<in> set (rows_of ?F)" "AttendTRBAM2026 (normalize_row raw) = None"
  proof -
    have "pie_intent ?F = Inr (pie_intent_rows (rows_of ?F))"
      by (subst F [OF that(1)]) (simp add: pie_intent_def)
    then show ?thesis
      using pie_intent_rows_unspecified [OF sub that] by simp
  qed
  have pt: "\<exists>s. pie_tenure ?F = Inr s \<and>
      last s = (''Unspecified'', length (filter (\<lambda>r. HowLong r = None) (rows_of ?F)))"
    if "normalize_row raw \<in> set (rows_of ?F)" "HowLong (normalize_row raw) = None"
  proof -
    have "pie_tenure ?F = Inr (pie_tenure_rows (rows_of ?F))"
      by (subst F [OF that(1)]) (simp add: pie_tenure_def)
    then show ?thesis
      using pie_tenure_rows_unspecified [OF sub that] by simp
  qed
  show ?thesis
    using i t pi pt by (simp add: mask_intent_def mask_tenure_def isna_def)
qed

text \<open>C9 at the third row of the scenario, whose intent cell is empty: it is kept under
  the selection "Definitely going" alone and is the one row of the Unspecified bucket.\<close>

theorem out_of_domain_is_missing_witness:
  "AttendTRBAM2026 (normalize_row scenario_R3) = None \<and>
   mask_intent {''Definitely going''} (normalize_row scenario_R3) \<and>
   (\<exists>s. pie_intent
          (df_filtered
             \<lparr> input_yr = (0, 5), input_intent = [''Definitely going''], input_orgs = None,
               input_tenure = [] \<rparr>
             (BASE_DF [scenario_R1, scenario_R2, scenario_R3])) = Inr s \<and>
        last s = (''Unspecified'', 1))"
proof -
  let ?input = "\<lparr> input_yr = (0, 5), input_intent = [''Definitely going''], input_orgs = None,
               input_tenure = [] \<rparr>"
  let ?csv = "[scenario_R1, scenario_R2, scenario_R3]"
  have a: "raw_AttendTRBAM2026 scenario_R3 \<notin> set INTENT_LEVELS"
    by code_simp
  have b: "scenario_R3 \<in> set ?csv"
    by simp
  have c: "normalize_row scenario_R3 \<in> set (rows_of (df_filtered ?input (BASE_DF ?csv)))"
    by code_simp
  have d: "length (filter (\<lambda>r. AttendTRBAM2026 r = None)
      (rows_of (df_filtered ?input (BASE_DF ?csv)))) = 1"
    by code_simp
  note t = out_of_domain_is_missing [where raw = scenario_R3 and csv = ?csv
      and sel = "{''Definitely going''}" and input = ?input, THEN conjunct1, THEN mp, OF a]
  show ?thesis
    using t b c unfolding d by blast
qed

subsection \<open>Distinct labels\<close>

text \<open>The slider is declared with the bounds 0 and 5 (line 78). A range inside them lets
  through only the counts between 0 and 5 and the missing ones.\<close>

lemma df_filtered_counts_in_range:
  assumes "0 \<le> fst (input_yr input)" and "snd (input_yr input) \<le> 5"
  shows "\<forall>r\<in>set (rows_of (df_filtered input base)).
           isna (Last5Years r) \<or> (ge_num (Last5Years r) 0 \<and> le_num (Last5Years r) 5)"
proof
  fix r
  assume "r \<in> set (rows_of (df_filtered input base))"
  then have m: "pass_yr input r"
    by (simp add: df_filtered_iff)
  show "isna (Last5Years r) \<or> (ge_num (Last5Years r) 0 \<and> le_num (Last5Years r) 5)"
  proof (cases "Last5Years r")
    case None
    then show ?thesis by (simp add: isna_def)
  next
    case (Some v)
    show ?thesis
    proof (cases v)
      case (Fin q)
      have "of_int (fst (input_yr input)) \<le> q" "q \<le> of_int (snd (input_yr input))"
        using m Some Fin by (simp_all add: mask_yr_def isna_def ge_num_def le_num_def)
      moreover have "(0 :: rat) \<le> of_int (fst (input_yr input))"
        "(of_int (snd (input_yr input)) :: rat) \<le> 5"
        using assms by simp_all
      ultimately have "0 \<le> q \<and> q \<le> 5" by linarith
      then show ?thesis
        using Some Fin by (simp add: ge_num_def le_num_def)
    next
      case PInf
      then show ?thesis
        using m Some by (simp add: mask_yr_def isna_def ge_num_def le_num_def)
    next
      case NInf
      then show ?thesis
        using m Some by (simp add: mask_yr_def isna_def ge_num_def le_num_def)
    qed
  qed
qed

text \<open>After the cast, the counts of such a frame are the integers 0 to 5.\<close>

lemma cast_in_range:
  assumes "\<forall>r\<in>set d. isna (Last5Years r) \<or> (ge_num (Last5Years r) 0 \<and> le_num (Last5Years r) 5)"
  shows "\<forall>v\<in>set (map cast_cell (map Last5Years d)). \<forall>i. v = Some i \<longrightarrow> 0 \<le> i \<and> i \<le> 5"
proof (intro ballI allI impI)
  fix v i
  assume "v \<in> set (map cast_cell (map Last5Years d))" and v: "v = Some i"
  then obtain r where r: "r \<in> set d" "cast_cell (Last5Years r) = Some i"
    by auto
  then obtain q where q: "Last5Years r = Some (Fin q)" "i = \<lfloor>q\<rfloor>"
    by (auto simp: cast_cell_def split: option.splits num.splits)
  have "0 \<le> q \<and> q \<le> 5"
    using assms r(1) q(1) by (auto simp: isna_def ge_num_def le_num_def)
  then show "0 \<le> i \<and> i \<le> 5"
    unfolding q(2) by (simp add: le_floor_iff floor_le_iff)
qed

text \<open>
  C10, as the program runs it. In every series that the intent pie or the tenure pie
  returns, and in every organization series, the labels are pairwise distinct. In every
  series that the attendance pie returns they are pairwise distinct when every count of
  the filtered frame is missing or lies between 0 and 5, which is so whenever the range
  lies within the bounds 0 and 5 of the slider.
\<close>

theorem series_labels_distinct:
  "(pie_intent (df_filtered input (BASE_DF csv)) = Inr s \<longrightarrow> distinct (map fst s)) \<and>
   (pie_tenure (df_filtered input (BASE_DF csv)) = Inr s \<longrightarrow> distinct (map fst s)) \<and>
   distinct (map fst (bar_orgs (df_filtered input (BASE_DF csv)))) \<and>
   ((\<forall>r\<in>set (rows_of (df_filtered input (BASE_DF csv))).
        isna (Last5Years r) \<or> (ge_num (Last5Years r) 0 \<and> le_num (Last5Years r) 5)) \<and>
    pie_last5 na_ignore (df_filtered input (BASE_DF csv)) = Inr s \<longrightarrow>
      distinct (map fst s)) \<and>
   (0 \<le> fst (input_yr input) \<and> snd (input_yr input) \<le> 5 \<and>
    pie_last5 na_ignore (df_filtered input (BASE_DF csv)) = Inr s \<longrightarrow>
      distinct (map fst s))"
proof -
  let ?F = "df_filtered input (BASE_DF csv)"
  have sub: "set (rows_of ?F) \<subseteq> set (BASE_DF csv)"
    by (rule df_filtered_subset)
  have i: "distinct (map fst s)" if "pie_intent ?F = Inr s"
  proof -
    have "s = pie_intent_rows (rows_of ?F)"
      using that by (cases ?F) (simp_all add: pie_intent_def)
    then have "distinct (map fst s) = distinct (map fst (pie_intent_rows (rows_of ?F)))"
      by simp
    also have "\<dots>"
      unfolding pie_intent_rows_labels [OF sub]
      by (rule distinct_filter) (rule intent_order_distinct)
    finally show ?thesis .
  qed
  have t: "distinct (map fst s)" if "pie_tenure ?F = Inr s"
  proof -
    have "s = pie_tenure_rows (rows_of ?F)"
      using that by (cases ?F) (simp_all add: pie_tenure_def)
    then have "distinct (map fst s) = distinct (map fst (pie_tenure_rows (rows_of ?F)))"
      by simp
    also have "\<dots>"
      unfolding pie_tenure_rows_labels [OF sub]
      by (rule distinct_filter) (rule tenure_order_distinct)
    finally show ?thesis .
  qed
  have o: "distinct (map fst (bar_orgs ?F))"
    unfolding bar_orgs_eq by (rule value_counts_labels_distinct)
  have l: "distinct (map fst s)"
    if r: "\<forall>r\<in>set (rows_of ?F).
             isna (Last5Years r) \<or> (ge_num (Last5Years r) 0 \<and> le_num (Last5Years r) 5)"
      and p: "pie_last5 na_ignore ?F = Inr s"
  proof -
    obtain d where d: "?F = Frame d"
      using p by (cases ?F) (simp_all add: pie_last5_def)
    have "s = pie_last5_cast na_ignore (map cast_cell (map Last5Years d))"
      using p unfolding d
      by (simp add: pie_last5_def astype_Int64_def split: if_splits)
    moreover have "\<forall>v\<in>set (map cast_cell (map Last5Years d)). \<forall>i. v = Some i \<longrightarrow> 0 \<le> i \<and> i \<le> 5"
      using r unfolding d by (intro cast_in_range) simp
    ultimately have "map fst s =
        map time_label
          (filter (\<lambda>c. c \<in> set (map (\<lambda>v. label_na ''Unspecified'' (map_option str_int v))
                                     (map cast_cell (map Last5Years d))))
             last5_order)"
      by (simp only: pie_last5_cast_labels)
    then show ?thesis
      using distinct_map_filter [OF last5_labels_distinct] by simp
  qed
  have l': "distinct (map fst s)"
    if "0 \<le> fst (input_yr input)" "snd (input_yr input) \<le> 5" "pie_last5 na_ignore ?F = Inr s"
    using l df_filtered_counts_in_range [OF that(1,2)] that(3) by blast
  show ?thesis
    using i t o l l' by blast
qed

text \<open>C10 on a table with the counts 7, 2, 2 and a missing one, under the full range of
  the slider: the row with 7 is filtered out, and the labels are distinct.\<close>

theorem series_labels_distinct_witness:
  "\<exists>s. pie_last5 True
     (df_filtered
        \<lparr> input_yr = (0, 5), input_intent = [], input_orgs = None, input_tenure = [] \<rparr>
        (BASE_DF [scenario_R1 \<lparr> raw_Last5Years := ''7'' \<rparr>, scenario_R1, scenario_R1,
                  scenario_R2])) = Inr s \<and> distinct (map fst s)"
proof -
  let ?input = "\<lparr> input_yr = (0, 5), input_intent = [], input_orgs = None, input_tenure = [] \<rparr>"
  let ?csv = "[scenario_R1 \<lparr> raw_Last5Years := ''7'' \<rparr>, scenario_R1, scenario_R1, scenario_R2]"
  have p: "pie_last5 True (df_filtered ?input (BASE_DF ?csv)) =
      Inr [(''2 times'', 2), (''Unspecified time'', 1)]"
    by code_simp
  have b: "0 \<le> fst (input_yr ?input) \<and> snd (input_yr ?input) \<le> 5"
    by simp
  have "distinct (map fst [(''2 times'', 2 :: nat), (''Unspecified time'', 1)])"
    using series_labels_distinct [where input = ?input and csv = ?csv and na_ignore = True
        and s = "[(''2 times'', 2), (''Unspecified time'', 1)]"] p b
    by blast
  then show ?thesis
    using p by blast
qed

text \<open>
  C10, as stated: under the range 0 to 9 the counts 7 and 8, which the normaliser keeps,
  pass the filter. Neither is a category of the ordered label column, so their two
  entries of the attendance series carry the same label, whichever way the pandas at
  hand renders the missing category.
\<close>

theorem attendance_labels_counterexample:
  "pie_last5 True
     (df_filtered
        \<lparr> input_yr = (0, 9), input_intent = [], input_orgs = None, input_tenure = [] \<rparr>
        (BASE_DF [scenario_R1 \<lparr> raw_Last5Years := ''7'' \<rparr>,
                  scenario_R1 \<lparr> raw_Last5Years := ''8'' \<rparr>])) =
     Inr [(''nan'', 1), (''nan'', 1)] \<and>
   pie_last5 False
     (df_filtered
        \<lparr> input_yr = (0, 9), input_intent = [], input_orgs = None, input_tenure = [] \<rparr>
        (BASE_DF [scenario_R1 \<lparr> raw_Last5Years := ''7'' \<rparr>,
                  scenario_R1 \<lparr> raw_Last5Years := ''8'' \<rparr>])) =
     Inr [(''nan times'', 1), (''nan times'', 1)] \<and>
   \<not> distinct (map fst [(''nan'', 1 :: nat), (''nan'', 1)]) \<and>
   \<not> distinct (map fst [(''nan times'', 1 :: nat), (''nan times'', 1)])"
  by code_simp

subsection \<open>The numeric column\<close>

lemma digit_char_facts:
  "\<forall>d\<in>set [0..<10].
     is_digit (digit_char d) \<and> digit_val (digit_char d) = d \<and> \<not> is_space_c (digit_char d) \<and>
     digit_char d \<noteq> CHR ''-'' \<and> digit_char d \<noteq> CHR ''+''"
  by code_simp

lemma digit_char_props:
  assumes "d < 10"
  shows "is_digit (digit_char d)" and "digit_val (digit_char d) = d"
    and "\<not> is_space_c (digit_char d)"
    and "digit_char d \<noteq> CHR ''-''" and "digit_char d \<noteq> CHR ''+''"
  using assms digit_char_facts by auto

lemma digits_val_snoc: "digits_val (ds @ [c]) = 10 * digits_val ds + digit_val c"
  by (simp add: digits_val_def)

lemma str_nat_digits:
  "str_nat n \<noteq> [] \<and> list_all is_digit (str_nat n) \<and> digits_val (str_nat n) = n \<and>
   is_digit (hd (str_nat n)) \<and> is_digit (last (str_nat n))"
proof (induction n rule: str_nat.induct)
  case (1 n)
  show ?case
  proof (cases "n < 10")
    case True
    then show ?thesis
      by (simp add: str_nat.simps [of n] digit_char_props digits_val_def)
  next
    case False
    then have ih: "str_nat (n div 10) \<noteq> []" "list_all is_digit (str_nat (n div 10))"
      "digits_val (str_nat (n div 10)) = n div 10" "is_digit (hd (str_nat (n div 10)))"
      using "1.IH" by simp_all
    have m: "n mod 10 < 10" by simp
    show ?thesis
      using False ih digit_char_props [OF m]
      by (simp add: str_nat.simps [of n] digits_val_snoc)
  qed
qed

lemma digit_not_space: "is_digit c \<Longrightarrow> \<not> is_space_c c"
  by (auto simp: is_digit_def is_space_c_def less_eq_char_def)

lemma digit_not_sign: "is_digit c \<Longrightarrow> c \<noteq> CHR ''-'' \<and> c \<noteq> CHR ''+''"
  by (auto simp: is_digit_def less_eq_char_def)

lemma takeWhile_all: "list_all P xs \<Longrightarrow> takeWhile P xs = xs \<and> dropWhile P xs = []"
  by (induction xs) auto

lemma xstrtod_digits:
  assumes "ds \<noteq> []" and "list_all is_digit ds"
  shows "xstrtod ds = Some (of_nat (digits_val ds))"
    and "xstrtod (CHR ''-'' # ds) = Some (- of_nat (digits_val ds))"
proof -
  obtain c cs where cs: "ds = c # cs"
    using assms(1) by (cases ds) auto
  have c: "is_digit c"
    using assms(2) cs by simp
  have sp: "dropWhile is_space_c ds = ds"
    "dropWhile is_space_c (CHR ''-'' # ds) = CHR ''-'' # ds"
    using cs digit_not_space [OF c] by (simp_all add: is_space_c_def)
  have sg: "sign_of ds = (False, ds)" "sign_of (CHR ''-'' # ds) = (True, ds)"
    using cs digit_not_sign [OF c] by (simp_all add: sign_of_def)
  have val: "dec_value neg ds [] 0 = (if neg then - of_nat (digits_val ds) else of_nat (digits_val ds))"
    for neg
    by (simp add: dec_value_def Let_def)
  have tw: "takeWhile is_digit ds = ds" "dropWhile is_digit ds = []"
    using takeWhile_all [OF assms(2)] by simp_all
  show "xstrtod ds = Some (of_nat (digits_val ds))"
    using assms(1)
    by (simp add: xstrtod_def sp sg tw fraction_part_def exponent_part_def val)
  have ns: "\<not> is_space_c (CHR ''-'')"
    by (simp add: is_space_c_def)
  show "xstrtod (CHR ''-'' # ds) = Some (- of_nat (digits_val ds))"
    using assms(1)
    by (simp add: xstrtod_def ns sg tw fraction_part_def exponent_part_def val)
qed

lemma to_numeric_str_int: "to_numeric (str_int i) = Some (Fin (of_int i))"
proof (cases "i < 0")
  case True
  have "xstrtod (CHR ''-'' # str_nat (nat (- i))) = Some (- of_nat (nat (- i)))"
    using xstrtod_digits(2) [of "str_nat (nat (- i))"] str_nat_digits [of "nat (- i)"] by simp
  moreover have "- (of_nat (nat (- i)) :: rat) = of_int i"
    using True by simp
  ultimately show ?thesis
    using True by (simp add: to_numeric_def str_int_def)
next
  case False
  have "xstrtod (str_nat (nat i)) = Some (of_nat (nat i))"
    using xstrtod_digits(1) [of "str_nat (nat i)"] str_nat_digits [of "nat i"] by simp
  moreover have "(of_nat (nat i) :: rat) = of_int i"
    using False by simp
  ultimately show ?thesis
    using False by (simp add: to_numeric_def str_int_def)
qed

text \<open>Every character of a cell that is read as a number is a digit, whitespace, a
  sign, the point, an exponent mark or a letter of inf or infinity.\<close>

lemma set_dropWhile: "set xs \<subseteq> {c. P c} \<union> set (dropWhile P xs)"
  by (induction xs) auto

lemma dropWhile_Nil_set: "dropWhile P xs = [] \<Longrightarrow> set xs \<subseteq> {c. P c}"
  by (induction xs) (auto split: if_splits)

lemma sign_of_set: "sign_of s = (n, t) \<Longrightarrow> set s \<subseteq> {CHR ''-'', CHR ''+''} \<union> set t"
  by (cases s) (auto simp: sign_of_def split: if_splits)

lemma fraction_part_set:
  "fraction_part s = (fp, t) \<Longrightarrow> set s \<subseteq> {CHR ''.''} \<union> {c. is_digit c} \<union> set t"
proof (cases s)
  case Nil
  then show ?thesis by simp
next
  case (Cons c u)
  assume f: "fraction_part s = (fp, t)"
  show ?thesis
  proof (cases "c = CHR ''.''")
    case True
    then have "t = dropWhile is_digit u"
      using f Cons by (simp add: fraction_part_def)
    then show ?thesis
      using Cons True set_dropWhile [of u is_digit] by auto
  next
    case False
    then have "t = s"
      using f Cons by (simp add: fraction_part_def)
    then show ?thesis by auto
  qed
qed

lemma exponent_part_set:
  assumes "exponent_part s = Some (e, t)"
  shows "set s \<subseteq> {CHR ''e'', CHR ''E'', CHR ''-'', CHR ''+''} \<union> {c. is_digit c} \<union> set t"
proof (cases s)
  case Nil
  then show ?thesis by simp
next
  case (Cons c u)
  show ?thesis
  proof (cases "c = CHR ''e'' \<or> c = CHR ''E''")
    case True
    obtain n u2 where sg: "sign_of u = (n, u2)"
      by (cases "sign_of u")
    have "t = dropWhile is_digit u2"
      using assms Cons True sg by (auto simp: exponent_part_def Let_def split: if_splits)
    then show ?thesis
      using Cons True sign_of_set [OF sg] set_dropWhile [of u2 is_digit] by auto
  next
    case False
    then have "t = s"
      using assms Cons by (simp add: exponent_part_def)
    then show ?thesis by auto
  qed
qed

lemma xstrtod_chars:
  assumes "xstrtod s = Some q" and "c \<in> set s"
  shows "is_digit c \<or> is_space_c c \<or> c \<in> set ''+-.eE''"
proof -
  obtain neg s2 where sg: "sign_of (dropWhile is_space_c s) = (neg, s2)"
    by (cases "sign_of (dropWhile is_space_c s)")
  obtain fp s4 where fr: "fraction_part (dropWhile is_digit s2) = (fp, s4)"
    by (cases "fraction_part (dropWhile is_digit s2)")
  obtain ex s5 where ex: "exponent_part s4 = Some (ex, s5)" and e: "dropWhile is_space_c s5 = []"
    using assms(1) sg fr
    by (auto simp: xstrtod_def Let_def split: if_splits option.splits)
  have "set s \<subseteq> {c. is_space_c c} \<union> set (dropWhile is_space_c s)"
    by (rule set_dropWhile)
  moreover have "set (dropWhile is_space_c s) \<subseteq> {CHR ''-'', CHR ''+''} \<union> set s2"
    by (rule sign_of_set [OF sg])
  moreover have "set s2 \<subseteq> {c. is_digit c} \<union> set (dropWhile is_digit s2)"
    by (rule set_dropWhile)
  moreover have "set (dropWhile is_digit s2) \<subseteq> {CHR ''.''} \<union> {c. is_digit c} \<union> set s4"
    by (rule fraction_part_set [OF fr])
  moreover have "set s4 \<subseteq> {CHR ''e'', CHR ''E'', CHR ''-'', CHR ''+''} \<union> {c. is_digit c} \<union> set s5"
    by (rule exponent_part_set [OF ex])
  moreover have "set s5 \<subseteq> {c. is_space_c c}"
    by (rule dropWhile_Nil_set [OF e])
  ultimately have "set s \<subseteq> {c. is_space_c c} \<union> {c. is_digit c} \<union>
      {CHR ''-'', CHR ''+'', CHR ''.'', CHR ''e'', CHR ''E''}"
    by blast
  then show ?thesis
    using assms(2) by auto
qed

lemma lower_inf_letters: "\<forall>c. lower c \<in> set ''inf+-ty'' \<longrightarrow> c \<in> set ''iInNfFtTyY+-''"
  by code_simp

lemma inf_word_chars:
  assumes "inf_word s = Some v" and "c \<in> set s"
  shows "c \<in> set ''iInNfFtTyY+-''"
proof -
  have "map lower s \<in> set [''inf'', ''+inf'', ''infinity'', ''+infinity'', ''-inf'', ''-infinity'']"
    using assms(1) by (auto simp: inf_word_def Let_def split: if_splits)
  then have "set (map lower s) \<subseteq> set ''inf+-ty''"
    by auto
  then have "lower c \<in> set ''inf+-ty''"
    using assms(2) by auto
  then show ?thesis
    using lower_inf_letters by blast
qed

text \<open>A cell that is empty, or holds a character that occurs in no number, is not a
  number.\<close>

lemma to_numeric_text:
  assumes "s = [] \<or>
      (\<exists>c\<in>set s. \<not> is_digit c \<and> \<not> is_space_c c \<and> c \<notin> set ''+-.eEnNaAiIfFtTyY'')"
  shows "to_numeric s = None"
proof (cases "s = []")
  case True
  have "to_numeric [] = None"
    by code_simp
  then show ?thesis using True by simp
next
  case False
  then obtain c where c: "c \<in> set s" "\<not> is_digit c" "\<not> is_space_c c"
      "c \<notin> set ''+-.eEnNaAiIfFtTyY''"
    using assms by blast
  have "xstrtod s = None"
  proof (cases "xstrtod s")
    case None
    then show ?thesis .
  next
    case (Some q)
    then show ?thesis
      using xstrtod_chars [OF Some c(1)] c by auto
  qed
  moreover have "inf_word s = None"
  proof (cases "inf_word s")
    case None
    then show ?thesis .
  next
    case (Some v)
    then show ?thesis
      using inf_word_chars [OF Some c(1)] c(4) by auto
  qed
  ultimately show ?thesis
    by (simp add: to_numeric_def)
qed

text \<open>
  C4, as the program runs it. A cell that is the decimal writing of an integer (one that
  a 64-bit float holds exactly) is read as that integer, whether it lies in 0 to 5 or
  not, and its row passes the range mask exactly when the integer lies in the selected
  range. A cell that is empty, or holds a character that occurs in no number (no digit,
  no whitespace, no sign, no decimal point, no exponent mark and no letter of inf, nan
  or infinity), is read as NaN, and its row passes the range mask for every range.
\<close>

theorem numeric_normalisation:
  "(\<bar>i\<bar> \<le> 2 ^ 53 \<longrightarrow>
      Last5Years (normalize_row (raw \<lparr> raw_Last5Years := str_int i \<rparr>)) =
        Some (Fin (of_int i)) \<and>
      mask_yr yr0 yr1 (normalize_row (raw \<lparr> raw_Last5Years := str_int i \<rparr>)) =
        (yr0 \<le> i \<and> i \<le> yr1)) \<and>
   (s = [] \<or>
    (\<exists>c\<in>set s. \<not> is_digit c \<and> \<not> is_space_c c \<and> c \<notin> set ''+-.eEnNaAiIfFtTyY'') \<longrightarrow>
      Last5Years (normalize_row (raw \<lparr> raw_Last5Years := s \<rparr>)) = None \<and>
      mask_yr yr0 yr1 (normalize_row (raw \<lparr> raw_Last5Years := s \<rparr>)))"
proof -
  have n: "to_numeric s = None"
    if "s = [] \<or>
        (\<exists>c\<in>set s. \<not> is_digit c \<and> \<not> is_space_c c \<and> c \<notin> set ''+-.eEnNaAiIfFtTyY'')"
    by (rule to_numeric_text) (use that in auto)
  show ?thesis
    using n
    by (simp add: normalize_row_def to_numeric_str_int mask_yr_def isna_def ge_num_def le_num_def)
qed

text \<open>C4 at the cells "7" and "n/a" with the range 0 to 5: the first is read as 7 and
  fails the range mask, the second is read as NaN and passes it.\<close>

theorem numeric_normalisation_witness:
  "Last5Years (normalize_row (scenario_R1 \<lparr> raw_Last5Years := ''7'' \<rparr>)) = Some (Fin 7) \<and>
   \<not> mask_yr 0 5 (normalize_row (scenario_R1 \<lparr> raw_Last5Years := ''7'' \<rparr>)) \<and>
   Last5Years (normalize_row (scenario_R1 \<lparr> raw_Last5Years := ''n/a'' \<rparr>)) = None \<and>
   mask_yr 0 5 (normalize_row (scenario_R1 \<lparr> raw_Last5Years := ''n/a'' \<rparr>))"
proof -
  have a: "str_int 7 = ''7''"
    by code_simp
  have b: "''n/a'' = [] \<or>
      (\<exists>c\<in>set ''n/a''. \<not> is_digit c \<and> \<not> is_space_c c \<and> c \<notin> set ''+-.eEnNaAiIfFtTyY'')"
    by code_simp
  have k: "\<bar>7 :: int\<bar> \<le> 2 ^ 53"
    by simp
  note t = numeric_normalisation [where raw = scenario_R1 and i = 7 and ?yr0.0 = 0
      and ?yr1.0 = 5 and s = "''n/a''", unfolded a]
  note u = t [THEN conjunct1, THEN mp, OF k]
  have c: "Last5Years (normalize_row (scenario_R1 \<lparr> raw_Last5Years := ''7'' \<rparr>)) =
      Some (Fin 7)"
    using u [THEN conjunct1] by simp
  have d: "\<not> mask_yr 0 5 (normalize_row (scenario_R1 \<lparr> raw_Last5Years := ''7'' \<rparr>))"
    unfolding u [THEN conjunct2] by simp
  show ?thesis
    using c d t [THEN conjunct2, THEN mp, OF b] by (intro conjI) blast+
qed

text \<open>
  C4, as stated: the cell "7" lies outside 0 to 5 and is not missing after the
  normaliser; its row is compared with the range 0 to 5 and dropped, where a row with a
  missing count is kept.\<close>

theorem out_of_range_count_counterexample:
  "Last5Years (normalize_row (scenario_R1 \<lparr> raw_Last5Years := ''7'' \<rparr>)) \<noteq> None \<and>
   df_filtered \<lparr> input_yr = (0, 5), input_intent = [], input_orgs = None, input_tenure = [] \<rparr>
     (BASE_DF [scenario_R1 \<lparr> raw_Last5Years := ''7'' \<rparr>]) = Frame [] \<and>
   df_filtered \<lparr> input_yr = (0, 5), input_intent = [], input_orgs = None, input_tenure = [] \<rparr>
     (BASE_DF [scenario_R1 \<lparr> raw_Last5Years := [] \<rparr>]) =
     Frame (BASE_DF [scenario_R1 \<lparr> raw_Last5Years := [] \<rparr>])"
  by code_simp

subsection \<open>Ranges that the slider cannot give\<close>

text \<open>
  C8, as the program runs it. Under every range, inside the bounds of the slider or
  not, the rows of the filtered frame are the rows of the table that pass the four
  tests, the range test as it stands. Under a range whose lower end is above its upper
  end they are the rows without a count that pass the other three tests, so the frame
  is empty exactly when the table has no such row. The filter returns a frame for every
  widget values: it has no step that raises.
\<close>

theorem inverted_range_keeps_missing_only:
  "rows_of (df_filtered input base) =
     filter (\<lambda>r. pass_yr input r \<and> pass_intent input r \<and> pass_tenure input r \<and>
                 pass_orgs input r) base \<and>
   (snd (input_yr input) < fst (input_yr input) \<longrightarrow>
      rows_of (df_filtered input base) =
        filter (\<lambda>r. Last5Years r = None \<and> pass_intent input r \<and> pass_tenure input r \<and>
                    pass_orgs input r) base \<and>
      (rows_of (df_filtered input base) = [] \<longleftrightarrow>
         (\<forall>r\<in>set base. \<not> (Last5Years r = None \<and> pass_intent input r \<and> pass_tenure input r \<and>
                              pass_orgs input r))))"
proof -
  have m: "pass_yr input r \<longleftrightarrow> Last5Years r = None"
    if "snd (input_yr input) < fst (input_yr input)" for r
  proof (cases "Last5Years r")
    case None
    then show ?thesis by (simp add: mask_yr_def isna_def)
  next
    case (Some v)
    have "\<not> (of_int (fst (input_yr input)) \<le> q \<and> q \<le> of_int (snd (input_yr input)))"
      for q :: rat
    proof
      assume "of_int (fst (input_yr input)) \<le> q \<and> q \<le> of_int (snd (input_yr input))"
      then have "(of_int (fst (input_yr input)) :: rat) \<le> of_int (snd (input_yr input))"
        by linarith
      then show False using that by simp
    qed
    then show ?thesis
      using Some by (cases v) (simp_all add: mask_yr_def isna_def ge_num_def le_num_def)
  qed
  have inv: "rows_of (df_filtered input base) =
        filter (\<lambda>r. Last5Years r = None \<and> pass_intent input r \<and> pass_tenure input r \<and>
                    pass_orgs input r) base"
    if "snd (input_yr input) < fst (input_yr input)"
    unfolding df_filtered_rows by (rule filter_cong) (simp_all add: m [OF that])
  have emp: "rows_of (df_filtered input base) = [] \<longleftrightarrow>
         (\<forall>r\<in>set base. \<not> (Last5Years r = None \<and> pass_intent input r \<and> pass_tenure input r \<and>
                              pass_orgs input r))"
    if "snd (input_yr input) < fst (input_yr input)"
    unfolding inv [OF that] by (simp only: filter_empty_conv)
  show ?thesis
    using df_filtered_rows [of input base] inv emp by blast
qed

text \<open>C8 on the scenario with the range from 5 down to 0: the one row without a count
  is what is kept.\<close>

theorem inverted_range_keeps_missing_only_witness:
  "rows_of (df_filtered
     \<lparr> input_yr = (5, 0), input_intent = INTENT_LEVELS, input_orgs = None,
       input_tenure = TENURE_LEVELS \<rparr>
     (BASE_DF [scenario_R1, scenario_R2, scenario_R3])) = BASE_DF [scenario_R2]"
proof -
  let ?input = "\<lparr> input_yr = (5, 0), input_intent = INTENT_LEVELS, input_orgs = None,
                   input_tenure = TENURE_LEVELS \<rparr>"
  let ?base = "BASE_DF [scenario_R1, scenario_R2, scenario_R3]"
  have h: "snd (input_yr ?input) < fst (input_yr ?input)"
    by simp
  have e: "rows_of (df_filtered ?input ?base) =
      filter (\<lambda>r. Last5Years r = None \<and> pass_intent ?input r \<and> pass_tenure ?input r \<and>
                  pass_orgs ?input r) ?base"
    by (rule inverted_range_keeps_missing_only
          [THEN conjunct2, THEN mp, OF h, THEN conjunct1])
  have v: "filter (\<lambda>r. Last5Years r = None \<and> pass_intent ?input r \<and> pass_tenure ?input r \<and>
                  pass_orgs ?input r) ?base = BASE_DF [scenario_R2]"
    by code_simp
  show ?thesis
    by (rule trans [OF e v])
qed

text \<open>
  C8, as stated: on the scenario the inverted range from 5 down to 0 keeps the row
  without a count, and the range from -2 to 9, which is out of the bounds 0 to 5, keeps
  all three rows; neither result is empty.\<close>

theorem malformed_range_counterexample:
  "df_filtered
     \<lparr> input_yr = (5, 0), input_intent = INTENT_LEVELS, input_orgs = None,
       input_tenure = TENURE_LEVELS \<rparr>
     (BASE_DF [scenario_R1, scenario_R2, scenario_R3]) = Frame (BASE_DF [scenario_R2]) \<and>
   BASE_DF [scenario_R2] \<noteq> [] \<and>
   df_filtered
     \<lparr> input_yr = (- 2, 9), input_intent = INTENT_LEVELS, input_orgs = None,
       input_tenure = TENURE_LEVELS \<rparr>
     (BASE_DF [scenario_R1, scenario_R2, scenario_R3]) =
     Frame (BASE_DF [scenario_R1, scenario_R2, scenario_R3]) \<and>
   BASE_DF [scenario_R1, scenario_R2, scenario_R3] \<noteq> []"
  by code_simp

end
